theory Spec2Isabelle
  imports Main
begin

section \<open>Swoosh signaling server: rooms, relay and usage counters\<close>

text \<open>
  The development follows the two modules of the repository that carry the state:
  the analytics module (the functions \<open>trackRoomCreated\<close> ... \<open>incrementHourlyStat\<close>
  and the four Mongoose models they write to) and the signaling server (the maps
  \<open>roomUsers\<close> and \<open>userRoomMap\<close> and the socket event handlers).

  Conventions of the embedding.
  \<^item> The document store and the clock are the \<open>world\<close>. Every Mongoose call is one
    store operation; it may throw, and it takes time. Both are decided by the
    environment: \<open>env w n\<close> says of the n-th store operation of the process whether
    it throws and how many milliseconds pass while it is awaited; \<open>calls\<close> counts the
    store operations made so far.
  \<^item> A JavaScript function that may throw is a function into \<open>exn + 'a\<close>; an
    \<open>await\<close> is the \<open>bind\<close> of the computation awaited, and \<open>try { } catch { }\<close> is
    \<open>try_catch\<close>.
  \<^item> A socket handler is an async function with one \<open>await\<close>, on an analytics call. It
    runs in two stretches: from its first line to the \<open>await\<close>, and, once the awaited call
    has returned, from there to its last line. Whatever else the server has to do runs
    between the two. \<open>start\<close> is the first stretch of a handler and \<open>resume\<close> the
    second; \<open>sched\<close> runs the server through a list of moves in which the stretches of
    different handlers follow each other in any order. \<open>handle\<close> is a handler whose second
    stretch follows its first with nothing between, and \<open>run\<close> a list of such handlers.
  \<^item> The store operations of two analytics calls in flight together interleave as well;
    this is written out for the two functions that read the store and then write to it,
    \<open>incrementHourlyStat\<close> and \<open>trackRoomClosed\<close>.
  \<^item> A JavaScript \<open>Set\<close> is the list of its elements in insertion order, without
    repetition; a \<open>Map\<close> is a partial function.
  \<^item> Times are milliseconds in server-local time, and every day has 86400000 of them:
    \<open>setHours(0, 0, 0, 0)\<close> is local midnight, and the days on which the local clock is
    changed, which have an hour less or more, are not modelled.
  \<^item> Counters are natural numbers; the counts of the program stay far below the
    2^53 up to which a JavaScript number counts exactly.
\<close>

subsection \<open>Calendar arithmetic\<close>

definition MS_PER_HOUR :: nat where
  "MS_PER_HOUR = 3600000"

definition MS_PER_DAY :: nat where
  "MS_PER_DAY = 86400000"

text \<open>\<open>d.setHours(0, 0, 0, 0)\<close>: the instant the day of \<open>t\<close> began.\<close>

definition startOfDay :: "nat \<Rightarrow> nat" where
  "startOfDay t = (t div MS_PER_DAY) * MS_PER_DAY"

text \<open>\<open>d.getHours()\<close>.\<close>

definition getHours :: "nat \<Rightarrow> nat" where
  "getHours t = (t mod MS_PER_DAY) div MS_PER_HOUR"

subsection \<open>Documents of the four collections\<close>

type_synonym roomId = string
type_synonym socketId = string

datatype eventType = ET_created | ET_joined | ET_user_left | ET_closed

record roomEvent =
  re_roomId :: roomId
  re_eventType :: eventType
  re_userId :: string
  re_timestamp :: nat
  re_userCount :: nat

datatype sessionStatus =
  Initiated | Transferring | Paused | Completed | Failed | Cancelled

text \<open>
  Of a transfer session the analytics functions below read the room, the status and
  the start time and write the three signaling counters; the other fields of the schema
  (file count, byte count, end time, duration, peers) are left out.
\<close>

record transferSession =
  ts_id :: nat
  ts_roomId :: roomId
  ts_sessionId :: string
  ts_status :: sessionStatus
  ts_startTime :: nat
  ts_offers :: nat
  ts_answers :: nat
  ts_iceCandidates :: nat

record hourBucket =
  hb_hour :: nat
  hb_connections :: nat
  hb_roomsCreated :: nat
  hb_transfers :: nat

text \<open>
  The top-level counters of a day are addressed by field name (\<open>$inc: { [field]: amount }\<close>),
  so they are a function from the name; every counter of the schema defaults to 0.
  The analytics functions pass the names of schema fields only, so the case of a name
  outside the schema, which Mongoose leaves out of the update, does not arise.
\<close>

record dailyStats =
  ds_date :: nat
  ds_counters :: "string \<Rightarrow> nat"
  ds_hourlyBreakdown :: "hourBucket list"

datatype errorType =
  E_room_full | E_room_not_found | E_connection_failed | E_transfer_failed | E_other

record metadata =
  md_roomId :: roomId
  md_userId :: socketId
  md_occupancy :: "nat option"

record errorLog =
  el_errorType :: errorType
  el_errorMessage :: string
  el_metadata :: metadata
  el_roomId :: roomId
  el_userId :: socketId
  el_timestamp :: nat

record database =
  roomEvents :: "roomEvent list"
  transferSessions :: "transferSession list"
  dailyStatsDocs :: "dailyStats list"
  errorLogs :: "errorLog list"

definition empty_db :: database where
  "empty_db = \<lparr>roomEvents = [], transferSessions = [], dailyStatsDocs = [], errorLogs = []\<rparr>"

subsection \<open>The world, exceptions, and awaiting\<close>

text \<open>
  What can be thrown: by a store operation (the store cannot be reached, a unique index is
  violated), and by the destructuring of a handler argument that is not an object.
\<close>

datatype exn = PersistenceUnavailable | DuplicateKey | TypeError

record world =
  db :: database
  clock :: nat
  env :: "nat \<Rightarrow> bool \<times> nat"
  calls :: nat
  console :: "string list"

type_synonym 'a io = "world \<Rightarrow> (exn + 'a) \<times> world"

definition return :: "'a \<Rightarrow> 'a io" where
  "return a w = (Inr a, w)"

definition bind :: "'a io \<Rightarrow> ('a \<Rightarrow> 'b io) \<Rightarrow> 'b io" where
  "bind m f w = (case m w of (Inl e, w') \<Rightarrow> (Inl e, w') | (Inr a, w') \<Rightarrow> f a w')"

definition try_catch :: "'a io \<Rightarrow> (exn \<Rightarrow> 'a io) \<Rightarrow> 'a io" where
  "try_catch body handler w =
     (case body w of (Inl e, w') \<Rightarrow> handler e w' | (Inr a, w') \<Rightarrow> (Inr a, w'))"

text \<open>\<open>new Date()\<close> and \<open>Date.now\<close>.\<close>

definition now :: "nat io" where
  "now w = (Inr (clock w), w)"

text \<open>\<open>console.error(prefix, error.message)\<close>.\<close>

definition message_of :: "exn \<Rightarrow> string" where
  "message_of e = (case e of PersistenceUnavailable \<Rightarrow> ''store unavailable''
                           | DuplicateKey \<Rightarrow> ''E11000 duplicate key error''
                           | TypeError \<Rightarrow> ''Cannot destructure property of undefined'')"

definition console_error :: "string \<Rightarrow> exn \<Rightarrow> unit io" where
  "console_error prefix e w = (Inr (), w\<lparr>console := console w @ [prefix @ '' '' @ message_of e]\<rparr>)"

text \<open>
  One store operation. The operation \<open>f\<close> is given the instant of the call (the
  documents it builds take their default timestamp from it) and the database. The
  environment decides whether the call throws and how long it is awaited.
\<close>

definition store_call :: "(nat \<Rightarrow> database \<Rightarrow> exn + 'a \<times> database) \<Rightarrow> 'a io" where
  "store_call f w =
     (let (fails, delay) = env w (calls w);
          w' = w\<lparr>clock := clock w + delay, calls := calls w + 1\<rparr>
      in if fails then (Inl PersistenceUnavailable, w')
         else (case f (clock w) (db w) of
                 Inl e \<Rightarrow> (Inl e, w')
               | Inr (a, d) \<Rightarrow> (Inr a, w'\<lparr>db := d\<rparr>)))"

subsection \<open>The Mongoose operations the analytics module uses\<close>

definition RoomEvent_create :: "roomId \<Rightarrow> eventType \<Rightarrow> string \<Rightarrow> nat \<Rightarrow> unit io" where
  "RoomEvent_create rid et uid cnt =
     store_call (\<lambda>t d. Inr ((), d\<lparr>roomEvents := roomEvents d @
        [\<lparr>re_roomId = rid, re_eventType = et, re_userId = uid,
          re_timestamp = t, re_userCount = cnt\<rparr>]\<rparr>))"

text \<open>\<open>RoomEvent.exists({ roomId, eventType, timestamp: { $gte: since } })\<close>.\<close>

definition RoomEvent_exists :: "roomId \<Rightarrow> eventType \<Rightarrow> nat \<Rightarrow> bool io" where
  "RoomEvent_exists rid et since =
     store_call (\<lambda>t d. Inr (\<exists>e \<in> set (roomEvents d).
        re_roomId e = rid \<and> re_eventType e = et \<and> since \<le> re_timestamp e, d))"

definition ErrorLog_create :: "errorType \<Rightarrow> string \<Rightarrow> metadata \<Rightarrow> unit io" where
  "ErrorLog_create ety msg md =
     store_call (\<lambda>t d. Inr ((), d\<lparr>errorLogs := errorLogs d @
        [\<lparr>el_errorType = ety, el_errorMessage = msg, el_metadata = md,
          el_roomId = md_roomId md, el_userId = md_userId md, el_timestamp = t\<rparr>]\<rparr>))"

definition new_dailyStats :: "nat \<Rightarrow> dailyStats" where
  "new_dailyStats date = \<lparr>ds_date = date, ds_counters = (\<lambda>_. 0), ds_hourlyBreakdown = []\<rparr>"

definition inc_counter :: "string \<Rightarrow> nat \<Rightarrow> dailyStats \<Rightarrow> dailyStats" where
  "inc_counter field amount doc =
     doc\<lparr>ds_counters := (ds_counters doc)(field := ds_counters doc field + amount)\<rparr>"

text \<open>Apply an update to the first document of the day \<open>date\<close>, if there is one.\<close>

fun update_first :: "nat \<Rightarrow> (dailyStats \<Rightarrow> dailyStats) \<Rightarrow> dailyStats list \<Rightarrow> dailyStats list" where
  "update_first date f [] = []"
| "update_first date f (x # xs) =
     (if ds_date x = date then f x # xs else x # update_first date f xs)"

text \<open>
  \<open>DailyStats.updateOne({ date }, { $inc: { [field]: amount }, $setOnInsert: { date } },
  { upsert: true })\<close>: one operation of the store, which increments the counter of the
  day's document or inserts the document with the increment applied.
\<close>

definition DailyStats_updateOne_inc :: "nat \<Rightarrow> string \<Rightarrow> nat \<Rightarrow> unit io" where
  "DailyStats_updateOne_inc date field amount =
     store_call (\<lambda>t d. Inr ((),
        if \<exists>x \<in> set (dailyStatsDocs d). ds_date x = date
        then d\<lparr>dailyStatsDocs := update_first date (inc_counter field amount) (dailyStatsDocs d)\<rparr>
        else d\<lparr>dailyStatsDocs := dailyStatsDocs d @ [inc_counter field amount (new_dailyStats date)]\<rparr>))"

definition DailyStats_findOne :: "nat \<Rightarrow> dailyStats option io" where
  "DailyStats_findOne date =
     store_call (\<lambda>t d. Inr (find (\<lambda>x. ds_date x = date) (dailyStatsDocs d), d))"

text \<open>\<open>DailyStats.create({ date, hourlyBreakdown: [] })\<close>; the date has a unique index.\<close>

definition DailyStats_create :: "nat \<Rightarrow> dailyStats io" where
  "DailyStats_create date =
     store_call (\<lambda>t d.
        if \<exists>x \<in> set (dailyStatsDocs d). ds_date x = date then Inl DuplicateKey
        else Inr (new_dailyStats date, d\<lparr>dailyStatsDocs := dailyStatsDocs d @ [new_dailyStats date]\<rparr>))"

text \<open>
  A loaded Mongoose document remembers what was changed on it, and \<open>save()\<close> sends
  those changes: a pushed array element as a push, an assigned field of an array element
  as the new value of that field at that index.
\<close>

datatype hourField = F_connections | F_roomsCreated | F_transfers

datatype change = Push hourBucket | SetField nat hourField nat

definition get_field :: "hourField \<Rightarrow> hourBucket \<Rightarrow> nat" where
  "get_field f b = (case f of F_connections \<Rightarrow> hb_connections b
                            | F_roomsCreated \<Rightarrow> hb_roomsCreated b
                            | F_transfers \<Rightarrow> hb_transfers b)"

definition set_field :: "hourField \<Rightarrow> nat \<Rightarrow> hourBucket \<Rightarrow> hourBucket" where
  "set_field f v b = (case f of F_connections \<Rightarrow> b\<lparr>hb_connections := v\<rparr>
                              | F_roomsCreated \<Rightarrow> b\<lparr>hb_roomsCreated := v\<rparr>
                              | F_transfers \<Rightarrow> b\<lparr>hb_transfers := v\<rparr>)"

definition apply_change :: "change \<Rightarrow> dailyStats \<Rightarrow> dailyStats" where
  "apply_change c doc =
     (case c of
        Push b \<Rightarrow> doc\<lparr>ds_hourlyBreakdown := ds_hourlyBreakdown doc @ [b]\<rparr>
      | SetField i f v \<Rightarrow>
          (if i < length (ds_hourlyBreakdown doc)
           then doc\<lparr>ds_hourlyBreakdown :=
                  (ds_hourlyBreakdown doc)[i := set_field f v (ds_hourlyBreakdown doc ! i)]\<rparr>
           else doc))"

definition DailyStats_save :: "nat \<Rightarrow> change \<Rightarrow> unit io" where
  "DailyStats_save date c =
     store_call (\<lambda>t d. Inr ((),
        d\<lparr>dailyStatsDocs := update_first date (apply_change c) (dailyStatsDocs d)\<rparr>))"

text \<open>
  \<open>TransferSession.findOne({ roomId, status: { $in: ['initiated', 'transferring'] } })
  .sort({ startTime: -1 })\<close>: the matching session that started last (the first such in
  storage order among equals).
\<close>

fun latest :: "transferSession list \<Rightarrow> transferSession option" where
  "latest [] = None"
| "latest (x # xs) =
     (case latest xs of
        None \<Rightarrow> Some x
      | Some y \<Rightarrow> if ts_startTime y > ts_startTime x then Some y else Some x)"

definition TransferSession_findOne_active :: "roomId \<Rightarrow> transferSession option io" where
  "TransferSession_findOne_active rid =
     store_call (\<lambda>t d. Inr (latest (filter
        (\<lambda>x. ts_roomId x = rid \<and> (ts_status x = Initiated \<or> ts_status x = Transferring))
        (transferSessions d)), d))"

datatype signalingKind = K_offer | K_answer | K_iceCandidate

definition inc_signaling :: "signalingKind \<Rightarrow> transferSession \<Rightarrow> transferSession" where
  "inc_signaling k x = (case k of K_offer \<Rightarrow> x\<lparr>ts_offers := ts_offers x + 1\<rparr>
                                | K_answer \<Rightarrow> x\<lparr>ts_answers := ts_answers x + 1\<rparr>
                                | K_iceCandidate \<Rightarrow> x\<lparr>ts_iceCandidates := ts_iceCandidates x + 1\<rparr>)"

fun update_session :: "nat \<Rightarrow> (transferSession \<Rightarrow> transferSession) \<Rightarrow>
    transferSession list \<Rightarrow> transferSession list" where
  "update_session i f [] = []"
| "update_session i f (x # xs) =
     (if ts_id x = i then f x # xs else x # update_session i f xs)"

text \<open>\<open>TransferSession.updateOne({ _id }, { $inc: { ['signalingEventsCount.' + kind + 's']: 1 } })\<close>.\<close>

definition TransferSession_updateOne_inc :: "nat \<Rightarrow> signalingKind \<Rightarrow> unit io" where
  "TransferSession_updateOne_inc i k =
     store_call (\<lambda>t d. Inr ((),
        d\<lparr>transferSessions := update_session i (inc_signaling k) (transferSessions d)\<rparr>))"

subsection \<open>The analytics functions\<close>

definition incrementDailyStat :: "string \<Rightarrow> nat \<Rightarrow> unit io" where
  "incrementDailyStat field amount =
     try_catch
       (bind now (\<lambda>n.
          DailyStats_updateOne_inc (startOfDay n) field amount))
       (console_error ''[Analytics Error] incrementDailyStat:'')"

text \<open>
  \<open>incrementHourlyStat\<close> in its three stretches between awaits: find or create the
  document of today, change the loaded copy in memory, save it.
\<close>

definition hourly_load :: "nat \<Rightarrow> dailyStats io" where
  "hourly_load today =
     bind (DailyStats_findOne today) (\<lambda>found.
       case found of
         Some stats \<Rightarrow> return stats
       | None \<Rightarrow> DailyStats_create today)"

text \<open>\<open>findIndex\<close> returns -1 when no element matches.\<close>

fun findIndex :: "('a \<Rightarrow> bool) \<Rightarrow> 'a list \<Rightarrow> nat option" where
  "findIndex P [] = None"
| "findIndex P (x # xs) =
     (if P x then Some 0 else map_option Suc (findIndex P xs))"

definition hourly_change :: "hourField \<Rightarrow> nat \<Rightarrow> nat \<Rightarrow> dailyStats \<Rightarrow> change" where
  "hourly_change field amount currentHour stats =
     (case findIndex (\<lambda>h. hb_hour h = currentHour) (ds_hourlyBreakdown stats) of
        None \<Rightarrow> Push \<lparr>hb_hour = currentHour,
                      hb_connections = (if field = F_connections then amount else 0),
                      hb_roomsCreated = (if field = F_roomsCreated then amount else 0),
                      hb_transfers = (if field = F_transfers then amount else 0)\<rparr>
      | Some hourIndex \<Rightarrow>
          SetField hourIndex field
            (get_field field (ds_hourlyBreakdown stats ! hourIndex) + amount))"

definition hourly_store :: "hourField \<Rightarrow> nat \<Rightarrow> nat \<Rightarrow> dailyStats \<Rightarrow> unit io" where
  "hourly_store field amount currentHour stats =
     DailyStats_save (ds_date stats) (hourly_change field amount currentHour stats)"

definition incrementHourlyStat :: "hourField \<Rightarrow> nat \<Rightarrow> unit io" where
  "incrementHourlyStat field amount =
     try_catch
       (bind now (\<lambda>n.
        bind (hourly_load (startOfDay n)) (\<lambda>stats.
          hourly_store field amount (getHours n) stats)))
       (console_error ''[Analytics Error] incrementHourlyStat:'')"

definition trackRoomCreated :: "roomId \<Rightarrow> socketId \<Rightarrow> unit io" where
  "trackRoomCreated rid uid =
     try_catch
       (bind (RoomEvent_create rid ET_created uid 1) (\<lambda>_.
        bind (incrementDailyStat ''roomsCreated'' 1) (\<lambda>_.
          incrementHourlyStat F_roomsCreated 1)))
       (console_error ''[Analytics Error] trackRoomCreated:'')"

definition trackRoomJoined :: "roomId \<Rightarrow> socketId \<Rightarrow> nat \<Rightarrow> unit io" where
  "trackRoomJoined rid uid userCount =
     try_catch
       (bind (RoomEvent_create rid ET_joined uid userCount) (\<lambda>_.
        bind (incrementDailyStat ''totalConnections'' 1) (\<lambda>_.
          incrementHourlyStat F_connections 1)))
       (console_error ''[Analytics Error] trackRoomJoined:'')"

definition trackRoomClosed :: "roomId \<Rightarrow> unit io" where
  "trackRoomClosed rid =
     try_catch
       (bind now (\<lambda>n.
        bind (RoomEvent_exists rid ET_closed (startOfDay n)) (\<lambda>alreadyClosed.
          if alreadyClosed then return ()
          else
            bind (RoomEvent_create rid ET_closed ''system'' 0) (\<lambda>_.
              incrementDailyStat ''roomsCompleted'' 1))))
       (console_error ''[Analytics Error] trackRoomClosed:'')"

definition trackUserLeft :: "roomId \<Rightarrow> socketId \<Rightarrow> nat \<Rightarrow> unit io" where
  "trackUserLeft rid uid remainingUsers =
     try_catch
       (bind (RoomEvent_create rid ET_user_left uid remainingUsers) (\<lambda>_.
          if remainingUsers = 0 then trackRoomClosed rid else return ()))
       (console_error ''[Analytics Error] trackUserLeft:'')"

definition trackSignalingEvent :: "roomId \<Rightarrow> signalingKind \<Rightarrow> unit io" where
  "trackSignalingEvent rid k =
     try_catch
       (bind (TransferSession_findOne_active rid) (\<lambda>session.
          case session of
            Some x \<Rightarrow> TransferSession_updateOne_inc (ts_id x) k
          | None \<Rightarrow> return ()))
       (console_error ''[Analytics Error] trackSignalingEvent:'')"

definition logError :: "errorType \<Rightarrow> string \<Rightarrow> metadata \<Rightarrow> unit io" where
  "logError ety msg md =
     try_catch
       (ErrorLog_create ety msg md)
       (console_error ''[Analytics Error] logError:'')"

subsection \<open>The signaling server: registries and socket rooms\<close>

definition MAX_ROOM_CAPACITY :: nat where
  "MAX_ROOM_CAPACITY = 2"

definition ROOM_ID_LENGTH :: nat where
  "ROOM_ID_LENGTH = 6"

definition chars :: string where
  "chars = ''ABCDEFGHIJKLMNOPQRSTUVWXYZ0123456789''"

text \<open>
  \<open>generateRoomId\<close>: the argument gives, for the i-th round of the loop, the value of
  \<open>Math.floor(Math.random() * chars.length)\<close>, which lies below \<open>chars.length\<close>.
\<close>

definition generateRoomId :: "(nat \<Rightarrow> nat) \<Rightarrow> roomId" where
  "generateRoomId draws = map (\<lambda>i. chars ! (draws i mod length chars)) [0..<ROOM_ID_LENGTH]"

text \<open>\<open>Set.add\<close> and \<open>Set.delete\<close> on the insertion-ordered list of elements.\<close>

definition set_add :: "'a \<Rightarrow> 'a list \<Rightarrow> 'a list" where
  "set_add x xs = (if x \<in> set xs then xs else xs @ [x])"

definition set_delete :: "'a \<Rightarrow> 'a list \<Rightarrow> 'a list" where
  "set_delete x xs = removeAll x xs"

text \<open>
  \<open>roomUsers\<close> and \<open>userRoomMap\<close> are the two maps of the server. \<open>adapter\<close> is the
  room table of socket.io: the sockets subscribed to each room name, changed by
  \<open>socket.join\<close> and \<open>socket.leave\<close> and read by every broadcast.
\<close>

record server =
  roomUsers :: "roomId \<rightharpoonup> socketId list"
  userRoomMap :: "socketId \<rightharpoonup> roomId"
  adapter :: "roomId \<Rightarrow> socketId list"

definition init_server :: server where
  "init_server = \<lparr>roomUsers = Map.empty, userRoomMap = Map.empty, adapter = (\<lambda>_. [])\<rparr>"

text \<open>The events sent to clients, with the fields of their payloads in source order.\<close>

datatype 'p event =
    RoomCreated roomId nat nat
  | ErrorEv string string
  | RoomFull roomId nat "nat option" string
  | UserJoined socketId nat nat bool
  | RoomJoined roomId nat nat bool
  | RoomDismissed roomId string
  | UserLeft socketId nat nat
  | RoomLeft roomId string
  | Offer 'p
  | Answer 'p
  | IceCandidate 'p

text \<open>One \<open>emit\<close> call: the sockets it is addressed to, and the event.\<close>

type_synonym 'p emission = "socketId list \<times> 'p event"

text \<open>What a client receives from a list of emissions, in order.\<close>

definition inbox :: "socketId \<Rightarrow> 'p emission list \<Rightarrow> 'p event list" where
  "inbox c out = map snd (filter (\<lambda>(rs, e). c \<in> set rs) out)"

definition socket_join :: "socketId \<Rightarrow> roomId \<Rightarrow> server \<Rightarrow> server" where
  "socket_join c rid s = s\<lparr>adapter := (adapter s)(rid := set_add c (adapter s rid))\<rparr>"

definition socket_leave :: "socketId \<Rightarrow> roomId \<Rightarrow> server \<Rightarrow> server" where
  "socket_leave c rid s = s\<lparr>adapter := (adapter s)(rid := set_delete c (adapter s rid))\<rparr>"

text \<open>socket.io removes a closing socket from all its rooms.\<close>

definition leaveAll :: "socketId \<Rightarrow> server \<Rightarrow> server" where
  "leaveAll c s = s\<lparr>adapter := (\<lambda>rid. set_delete c (adapter s rid))\<rparr>"

text \<open>The targets of \<open>socket.emit\<close>, \<open>socket.to(room).emit\<close> and \<open>io.to(room).emit\<close>.\<close>

definition to_self :: "socketId \<Rightarrow> socketId list" where
  "to_self c = [c]"

definition socket_to :: "socketId \<Rightarrow> roomId \<Rightarrow> server \<Rightarrow> socketId list" where
  "socket_to c rid s = filter (\<lambda>x. x \<noteq> c) (adapter s rid)"

definition io_to :: "roomId \<Rightarrow> server \<Rightarrow> socketId list" where
  "io_to rid s = adapter s rid"

definition getRoomOccupancy :: "server \<Rightarrow> roomId \<Rightarrow> nat" where
  "getRoomOccupancy s rid = (case roomUsers s rid of Some users \<Rightarrow> length users | None \<Rightarrow> 0)"

definition isRoomFull :: "server \<Rightarrow> roomId \<Rightarrow> bool" where
  "isRoomFull s rid = (getRoomOccupancy s rid > MAX_ROOM_CAPACITY)"

definition roomExists :: "server \<Rightarrow> roomId \<Rightarrow> bool" where
  "roomExists s rid = (roomUsers s rid \<noteq> None)"

definition deleteRoom :: "roomId \<Rightarrow> server \<Rightarrow> server \<times> 'p emission list" where
  "deleteRoom rid s =
     (if roomUsers s rid \<noteq> None
      then (s\<lparr>roomUsers := (roomUsers s)(rid := None)\<rparr>,
            [(io_to rid s, RoomDismissed rid ''Room closed'')])
      else (s, []))"

text \<open>Decimal digits of a number, for the messages built from a template.\<close>

fun dec :: "nat \<Rightarrow> string" where
  "dec n = (if n < 10 then [''0123456789'' ! n]
            else dec (n div 10) @ [''0123456789'' ! (n mod 10)])"

declare dec.simps [simp del]

subsection \<open>The handlers, stretch by stretch\<close>

text \<open>
  A handler that has reached its \<open>await\<close> is suspended. What it still has to do when
  the awaited call has returned depends on the values it computed before: the socket, the
  room id, and the occupancy it read. These are the six suspended handlers; the call each
  one awaits is \<open>awaited\<close>, and what it does afterwards is \<open>resume\<close>.
\<close>

datatype signalingPayload = P_offer | P_answer | P_ice_candidate

datatype 'p suspended =
    AfterCreate socketId roomId
  | AfterRejected errorType string metadata
  | AfterJoin socketId roomId nat
  | AfterLeave socketId roomId nat
  | AfterRelay signalingPayload socketId 'p roomId
  | AfterDisconnecting socketId roomId nat

definition tally :: "signalingPayload \<Rightarrow> signalingKind" where
  "tally kind = (case kind of P_offer \<Rightarrow> K_offer
                            | P_answer \<Rightarrow> K_answer
                            | P_ice_candidate \<Rightarrow> K_iceCandidate)"

fun awaited :: "'p suspended \<Rightarrow> unit io" where
  "awaited (AfterCreate c roomId) = trackRoomCreated roomId c"
| "awaited (AfterRejected ety msg md) = logError ety msg md"
| "awaited (AfterJoin c roomId newOccupancy) = trackRoomJoined roomId c newOccupancy"
| "awaited (AfterLeave c roomId remainingOccupancy) = trackUserLeft roomId c remainingOccupancy"
| "awaited (AfterRelay kind c payload roomId) = trackSignalingEvent roomId (tally kind)"
| "awaited (AfterDisconnecting c roomId remainingOccupancy) =
     trackUserLeft roomId c remainingOccupancy"

text \<open>
  The first stretch of a handler gives the server as it leaves it, what it has emitted so
  far, and the suspended handler, if it reached an \<open>await\<close>.
\<close>

type_synonym 'p stretch = "server \<times> 'p emission list \<times> 'p suspended option"

text \<open>On connection socket.io subscribes the socket to the room named by its own id.\<close>

definition on_connection :: "socketId \<Rightarrow> server \<Rightarrow> 'p stretch" where
  "on_connection c s = (socket_join c c s, [], None)"

text \<open>\<open>create-room\<close> up to \<open>await trackRoomCreated(roomId, socket.id)\<close>.\<close>

definition create_room_begin :: "socketId \<Rightarrow> (nat \<Rightarrow> nat) \<Rightarrow> server \<Rightarrow> 'p stretch" where
  "create_room_begin c draws s =
     (let roomId = generateRoomId draws;
          s1 = s\<lparr>roomUsers := (roomUsers s)(roomId \<mapsto> [c]),
                 userRoomMap := (userRoomMap s)(c \<mapsto> roomId)\<rparr>;
          s2 = socket_join c roomId s1
      in (s2, [], Some (AfterCreate c roomId)))"

text \<open>
  \<open>join-room\<close> up to its \<open>await\<close>: of \<open>logError\<close> after the events of a rejection, or of
  \<open>trackRoomJoined\<close> after the joiner has been entered in the registries.
\<close>

definition join_room_begin :: "socketId \<Rightarrow> roomId \<Rightarrow> server \<Rightarrow> 'p stretch" where
  "join_room_begin c roomId s =
     (if \<not> roomExists s roomId then
        (s, [(to_self c,
               ErrorEv ''ROOM_NOT_FOUND'' ''Room ID not found or has been dismissed.'')],
         Some (AfterRejected E_room_not_found ''Room ID not found''
                 \<lparr>md_roomId = roomId, md_userId = c, md_occupancy = None\<rparr>))
      else
        let currentOccupancy = getRoomOccupancy s roomId in
        if isRoomFull s roomId then
          (s, [(to_self c, RoomFull roomId currentOccupancy (Some MAX_ROOM_CAPACITY)
                  (''Room is full ('' @ dec currentOccupancy @ ''/'' @ dec MAX_ROOM_CAPACITY
                     @ '' users). Cannot join.'')),
               (to_self c, ErrorEv ''ROOM_FULL''
                  (''Room is full ('' @ dec currentOccupancy @ ''/'' @ dec MAX_ROOM_CAPACITY
                     @ '' users).''))],
           Some (AfterRejected E_room_full ''Room is full''
                   \<lparr>md_roomId = roomId, md_userId = c, md_occupancy = Some currentOccupancy\<rparr>))
        else
          let s1 = s\<lparr>roomUsers := (roomUsers s)(roomId \<mapsto> set_add c (the (roomUsers s roomId))),
                     userRoomMap := (userRoomMap s)(c \<mapsto> roomId)\<rparr>;
              s2 = socket_join c roomId s1;
              newOccupancy = getRoomOccupancy s2 roomId
          in (s2, [], Some (AfterJoin c roomId newOccupancy)))"

text \<open>
  \<open>if (roomId && roomUsers.has(roomId))\<close>: an absent entry and the empty string are
  both falsy.
\<close>

definition in_live_room :: "server \<Rightarrow> socketId \<Rightarrow> roomId option" where
  "in_live_room s c =
     (case userRoomMap s c of
        None \<Rightarrow> None
      | Some roomId \<Rightarrow> if roomId \<noteq> [] \<and> roomUsers s roomId \<noteq> None then Some roomId else None)"

text \<open>
  \<open>leave-room\<close> up to \<open>await trackUserLeft(roomId, socket.id, remainingOccupancy)\<close>. The
  member has been taken out of the set of the room, and the room, emptied or not, is still
  in \<open>roomUsers\<close>.
\<close>

definition leave_room_begin :: "socketId \<Rightarrow> server \<Rightarrow> 'p stretch" where
  "leave_room_begin c s =
     (case in_live_room s c of
        None \<Rightarrow> (s, [], None)
      | Some roomId \<Rightarrow>
          let roomUserSet = set_delete c (the (roomUsers s roomId));
              s1 = s\<lparr>roomUsers := (roomUsers s)(roomId \<mapsto> roomUserSet),
                     userRoomMap := (userRoomMap s)(c := None)\<rparr>;
              s2 = socket_leave c roomId s1;
              remainingOccupancy = length roomUserSet
          in (s2, [], Some (AfterLeave c roomId remainingOccupancy)))"

text \<open>
  \<open>offer\<close>, \<open>answer\<close> and \<open>ice-candidate\<close> await \<open>trackSignalingEvent\<close> in their first
  line. The three handlers differ in the name of the event and of the tally.
\<close>

definition relay_begin :: "signalingPayload \<Rightarrow> socketId \<Rightarrow> 'p \<Rightarrow> roomId \<Rightarrow> server \<Rightarrow> 'p stretch" where
  "relay_begin kind c payload roomId s = (s, [], Some (AfterRelay kind c payload roomId))"

definition relayed :: "signalingPayload \<Rightarrow> 'p \<Rightarrow> 'p event" where
  "relayed kind payload =
     (case kind of P_offer \<Rightarrow> Offer payload
                 | P_answer \<Rightarrow> Answer payload
                 | P_ice_candidate \<Rightarrow> IceCandidate payload)"

text \<open>
  The three handlers take their argument apart in the parameter list,
  \<open>async ({ offer, roomId }) => ...\<close>. An event sent without an object makes this throw;
  the promise of the handler is rejected and nothing handles the rejection, which ends
  the Node process.
\<close>

datatype 'p argument = NoObject | Fields 'p roomId

definition relay_listener :: "signalingPayload \<Rightarrow> socketId \<Rightarrow> 'p argument \<Rightarrow> server \<Rightarrow>
    exn + 'p stretch" where
  "relay_listener kind c arg s =
     (case arg of
        NoObject \<Rightarrow> Inl TypeError
      | Fields payload roomId \<Rightarrow> Inr (relay_begin kind c payload roomId s))"

text \<open>
  The \<open>disconnecting\<close> listener up to \<open>await trackUserLeft(...)\<close>. It does not call
  \<open>socket.leave\<close>.
\<close>

definition disconnecting_begin :: "socketId \<Rightarrow> server \<Rightarrow> 'p stretch" where
  "disconnecting_begin c s =
     (case in_live_room s c of
        None \<Rightarrow> (s, [], None)
      | Some roomId \<Rightarrow>
          let roomUserSet = set_delete c (the (roomUsers s roomId));
              s1 = s\<lparr>roomUsers := (roomUsers s)(roomId \<mapsto> roomUserSet),
                     userRoomMap := (userRoomMap s)(c := None)\<rparr>;
              remainingOccupancy = length roomUserSet
          in (s1, [], Some (AfterDisconnecting c roomId remainingOccupancy)))"

text \<open>The \<open>disconnect\<close> listener, which has no \<open>await\<close>.\<close>

definition disconnect :: "socketId \<Rightarrow> server \<Rightarrow> server" where
  "disconnect c s =
     (case userRoomMap s c of
        None \<Rightarrow> s
      | Some roomId \<Rightarrow>
          if roomId \<noteq> [] then
            let s1 = s\<lparr>userRoomMap := (userRoomMap s)(c := None)\<rparr>
            in (case roomUsers s1 roomId of
                  Some roomUserSet \<Rightarrow>
                    s1\<lparr>roomUsers := (roomUsers s1)(roomId \<mapsto> set_delete c roomUserSet)\<rparr>
                | None \<Rightarrow> s1)
          else s)"

text \<open>
  The close of a connection. socket.io calls the \<open>disconnecting\<close> listener, which runs
  to its \<open>await\<close> and hands control back; socket.io then takes the socket out of all its
  rooms and calls the \<open>disconnect\<close> listener. The rest of the \<open>disconnecting\<close> listener
  runs later, when the awaited call has returned.
\<close>

definition on_close :: "socketId \<Rightarrow> server \<Rightarrow> 'p stretch" where
  "on_close c s =
     (case disconnecting_begin c s of
        (s1, out, k) \<Rightarrow> (disconnect c (leaveAll c s1), out, k))"

text \<open>
  The second stretch of each handler, from the return of the awaited call to the last
  line. It reads the registries and the socket rooms as they are by then, and the
  occupancy as the first stretch computed it.
\<close>

fun resume :: "'p suspended \<Rightarrow> server \<Rightarrow> server \<times> 'p emission list" where
  "resume (AfterCreate c roomId) s =
     (s, [(to_self c, RoomCreated roomId 1 MAX_ROOM_CAPACITY)])"
| "resume (AfterRejected ety msg md) s = (s, [])"
| "resume (AfterJoin c roomId newOccupancy) s =
     (s, [(socket_to c roomId s,
             UserJoined c newOccupancy MAX_ROOM_CAPACITY (isRoomFull s roomId)),
          (to_self c,
             RoomJoined roomId newOccupancy MAX_ROOM_CAPACITY (isRoomFull s roomId))]
         @ (if isRoomFull s roomId
            then [(io_to roomId s, RoomFull roomId newOccupancy None
                     ''Room is now full. No more users can join.'')]
            else []))"
| "resume (AfterLeave c roomId remainingOccupancy) s =
     (let (s1, out) =
            (if remainingOccupancy = 0 then deleteRoom roomId s
             else (s, [(socket_to c roomId s,
                          UserLeft c remainingOccupancy MAX_ROOM_CAPACITY)]))
      in (s1, out @ [(to_self c, RoomLeft roomId ''Successfully left the room'')]))"
| "resume (AfterRelay kind c payload roomId) s =
     (s, [(socket_to c roomId s, relayed kind payload)])"
| "resume (AfterDisconnecting c roomId remainingOccupancy) s =
     (if remainingOccupancy = 0 then deleteRoom roomId s
      else (s, [(socket_to c roomId s, UserLeft c remainingOccupancy MAX_ROOM_CAPACITY)]))"

subsection \<open>Client operations and runs of the server\<close>

datatype 'p op =
    Connect socketId
  | CreateRoom socketId "nat \<Rightarrow> nat"
  | JoinRoom socketId roomId
  | LeaveRoom socketId
  | Relay signalingPayload socketId 'p roomId
  | Disconnect socketId

text \<open>What the server does at once when an operation arrives.\<close>

fun start :: "'p op \<Rightarrow> server \<Rightarrow> 'p stretch" where
  "start (Connect c) s = on_connection c s"
| "start (CreateRoom c draws) s = create_room_begin c draws s"
| "start (JoinRoom c rid) s = join_room_begin c rid s"
| "start (LeaveRoom c) s = leave_room_begin c s"
| "start (Relay kind c payload rid) s = relay_begin kind c payload rid s"
| "start (Disconnect c) s = on_close c s"

text \<open>
  A handler with nothing between its stretches: the awaited call is made in the world,
  and the handler resumes in the server as its first stretch left it.
\<close>

definition alone :: "'p stretch \<Rightarrow> (server \<times> 'p emission list) io" where
  "alone r =
     (case r of
        (s1, out1, None) \<Rightarrow> return (s1, out1)
      | (s1, out1, Some k) \<Rightarrow>
          bind (awaited k) (\<lambda>_.
            case resume k s1 of (s2, out2) \<Rightarrow> return (s2, out1 @ out2)))"

definition handle :: "'p op \<Rightarrow> server \<Rightarrow> (server \<times> 'p emission list) io" where
  "handle x s = alone (start x s)"

text \<open>A run handles the operations in order, each to its end, and collects what was emitted.\<close>

fun run :: "'p op list \<Rightarrow> server \<Rightarrow> (server \<times> 'p emission list) io" where
  "run [] s = return (s, [])"
| "run (x # xs) s =
     bind (handle x s) (\<lambda>(s1, out1).
     bind (run xs s1) (\<lambda>(s2, out2).
       return (s2, out1 @ out2)))"

text \<open>
  The server with its suspended handlers, oldest first. A move of the server is the
  arrival of an operation, whose handler runs its first stretch and is suspended, or the
  return of the call that the i-th suspended handler awaits, on which that handler runs
  its second stretch. The awaited calls return in every world and hand nothing back to
  the handler, so the registries and the emissions are a function of the moves; the store
  is left out.
\<close>

type_synonym 'p process = "server \<times> 'p suspended list"

datatype 'p move = Arrive "'p op" | Return nat

fun step :: "'p move \<Rightarrow> 'p process \<Rightarrow> 'p process \<times> 'p emission list" where
  "step (Arrive x) (s, ks) =
     (case start x s of
        (s1, out, k) \<Rightarrow> ((s1, ks @ (case k of None \<Rightarrow> [] | Some h \<Rightarrow> [h])), out))"
| "step (Return i) (s, ks) =
     (if i < length ks
      then (case resume (ks ! i) s of
              (s1, out) \<Rightarrow> ((s1, take i ks @ drop (Suc i) ks), out))
      else ((s, ks), []))"

fun sched :: "'p move list \<Rightarrow> 'p process \<Rightarrow> 'p process \<times> 'p emission list" where
  "sched [] p = (p, [])"
| "sched (m # ms) p =
     (case step m p of
        (p1, out1) \<Rightarrow> (case sched ms p1 of (p2, out2) \<Rightarrow> (p2, out1 @ out2)))"

text \<open>The moves of a run in which every handler ends before the next operation arrives.\<close>

fun in_turn :: "'p op list \<Rightarrow> 'p move list" where
  "in_turn [] = []"
| "in_turn (x # xs) = Arrive x # Return 0 # in_turn xs"

text \<open>
  Two worlds at time 0 with an empty database: in \<open>world0\<close> every store operation
  succeeds at once; in \<open>world_down\<close> every store operation throws after ten seconds.
\<close>

definition world0 :: world where
  "world0 = \<lparr>db = empty_db, clock = 0, env = (\<lambda>_. (False, 0)), calls = 0, console = []\<rparr>"

definition world_down :: world where
  "world_down = \<lparr>db = empty_db, clock = 0, env = (\<lambda>_. (True, 10000)), calls = 0, console = []\<rparr>"

subsection \<open>Notions used in the statements\<close>

text \<open>What a handler returns when nothing runs between its stretches.\<close>

definition settled :: "'p stretch \<Rightarrow> server \<times> 'p emission list" where
  "settled r =
     (case r of
        (s1, out1, None) \<Rightarrow> (s1, out1)
      | (s1, out1, Some k) \<Rightarrow> (case resume k s1 of (s2, out2) \<Rightarrow> (s2, out1 @ out2)))"

text \<open>No registered room has an empty member set.\<close>

definition no_empty_room :: "server \<Rightarrow> bool" where
  "no_empty_room s = (\<forall>r users. roomUsers s r = Some users \<longrightarrow> users \<noteq> [])"

text \<open>Every room id in the registries is a non-empty string.\<close>

definition ids_truthy :: "server \<Rightarrow> bool" where
  "ids_truthy s = ((\<forall>r users. roomUsers s r = Some users \<longrightarrow> r \<noteq> []) \<and>
                   (\<forall>c r. userRoomMap s c = Some r \<longrightarrow> r \<noteq> []))"

text \<open>
  Every connection that \<open>userRoomMap\<close> sends to a room is subscribed to the socket room of
  that name.
\<close>

definition members_subscribed :: "server \<Rightarrow> bool" where
  "members_subscribed s = (\<forall>c r. userRoomMap s c = Some r \<longrightarrow> c \<in> set (adapter s r))"

text \<open>The server after a list of moves from its initial state.\<close>

definition server_after :: "'p move list \<Rightarrow> server" where
  "server_after ms = fst (fst (sched ms (init_server, [])))"

text \<open>The value of a top-level counter of a day, and of a counter of an hour of a day.\<close>

definition dailyCounter :: "database \<Rightarrow> nat \<Rightarrow> string \<Rightarrow> nat" where
  "dailyCounter d date field =
     (case find (\<lambda>x. ds_date x = date) (dailyStatsDocs d) of
        None \<Rightarrow> 0
      | Some doc \<Rightarrow> ds_counters doc field)"

definition hourlyCounter :: "database \<Rightarrow> nat \<Rightarrow> nat \<Rightarrow> hourField \<Rightarrow> nat" where
  "hourlyCounter d date hour field =
     (case find (\<lambda>x. ds_date x = date) (dailyStatsDocs d) of
        None \<Rightarrow> 0
      | Some doc \<Rightarrow>
          (case find (\<lambda>b. hb_hour b = hour) (ds_hourlyBreakdown doc) of
             None \<Rightarrow> 0
           | Some b \<Rightarrow> get_field field b))"

text \<open>The same call made \<open>n\<close> times, one after the other.\<close>

fun repeatedly :: "nat \<Rightarrow> unit io \<Rightarrow> unit io" where
  "repeatedly 0 m = return ()"
| "repeatedly (Suc n) m = bind m (\<lambda>_. repeatedly n m)"

text \<open>
  The two stretches of \<open>incrementHourlyStat\<close> between which the call is suspended with
  the loaded document in hand: up to the answer of \<open>findOne\<close> (and \<open>create\<close>), and from
  there to the end. An exception in the first stretch ends the call in its \<open>catch\<close>.
\<close>

definition hourly_begin :: "(nat \<times> dailyStats) option io" where
  "hourly_begin =
     try_catch
       (bind now (\<lambda>n.
        bind (hourly_load (startOfDay n)) (\<lambda>stats.
          return (Some (n, stats)))))
       (\<lambda>e. bind (console_error ''[Analytics Error] incrementHourlyStat:'' e) (\<lambda>_.
          return None))"

definition hourly_finish :: "hourField \<Rightarrow> nat \<Rightarrow> (nat \<times> dailyStats) option \<Rightarrow> unit io" where
  "hourly_finish field amount loaded =
     (case loaded of
        None \<Rightarrow> return ()
      | Some (n, stats) \<Rightarrow>
          try_catch
            (hourly_store field amount (getHours n) stats)
            (console_error ''[Analytics Error] incrementHourlyStat:''))"

text \<open>
  Two calls \<open>incrementHourlyStat(field)\<close> in flight together, the second started while
  the first awaits its document, and the same two calls one after the other.
\<close>

definition two_hourly_interleaved :: "hourField \<Rightarrow> unit io" where
  "two_hourly_interleaved field =
     bind hourly_begin (\<lambda>first.
     bind hourly_begin (\<lambda>second.
     bind (hourly_finish field 1 first) (\<lambda>_.
       hourly_finish field 1 second)))"

definition two_hourly_in_turn :: "hourField \<Rightarrow> unit io" where
  "two_hourly_in_turn field =
     bind (incrementHourlyStat field 1) (\<lambda>_. incrementHourlyStat field 1)"

text \<open>
  The two stretches of \<open>trackRoomClosed\<close> on either side of the answer of
  \<open>RoomEvent.exists\<close>: the first gives that answer, or nothing when the query threw and
  the call ended in its \<open>catch\<close>; the second records the closure unless the answer was
  that a closure is on record.
\<close>

definition closed_begin :: "roomId \<Rightarrow> bool option io" where
  "closed_begin rid =
     try_catch
       (bind now (\<lambda>n.
        bind (RoomEvent_exists rid ET_closed (startOfDay n)) (\<lambda>alreadyClosed.
          return (Some alreadyClosed))))
       (\<lambda>e. bind (console_error ''[Analytics Error] trackRoomClosed:'' e) (\<lambda>_.
          return None))"

definition closed_finish :: "roomId \<Rightarrow> bool option \<Rightarrow> unit io" where
  "closed_finish rid answer =
     (case answer of
        None \<Rightarrow> return ()
      | Some alreadyClosed \<Rightarrow>
          if alreadyClosed then return ()
          else
            try_catch
              (bind (RoomEvent_create rid ET_closed ''system'' 0) (\<lambda>_.
                 incrementDailyStat ''roomsCompleted'' 1))
              (console_error ''[Analytics Error] trackRoomClosed:''))"

text \<open>
  Two calls \<open>trackRoomClosed(roomId)\<close> in flight together, the query of the second
  answered before the first has recorded, and the same two calls one after the other.
\<close>

definition two_closed_interleaved :: "roomId \<Rightarrow> unit io" where
  "two_closed_interleaved rid =
     bind (closed_begin rid) (\<lambda>first.
     bind (closed_begin rid) (\<lambda>second.
     bind (closed_finish rid first) (\<lambda>_.
       closed_finish rid second)))"

definition two_closed_in_turn :: "roomId \<Rightarrow> unit io" where
  "two_closed_in_turn rid = bind (trackRoomClosed rid) (\<lambda>_. trackRoomClosed rid)"

text \<open>The closure events of a room that fall in a day.\<close>

definition closedEvents :: "roomId \<Rightarrow> nat \<Rightarrow> database \<Rightarrow> roomEvent list" where
  "closedEvents rid day d =
     filter (\<lambda>e. re_eventType e = ET_closed \<and> re_roomId e = rid \<and> startOfDay (re_timestamp e) = day)
       (roomEvents d)"

text \<open>
  A world one millisecond before midnight in which the second store operation, the
  recording of a closure, takes two milliseconds.
\<close>

definition world_at_midnight :: world where
  "world_at_midnight =
     \<lparr>db = empty_db, clock = MS_PER_DAY - 1,
      env = (\<lambda>n. (False, if n = 1 then 2 else 0)), calls = 0, console = []\<rparr>"

text \<open>
  The two registries agree when every connection that \<open>userRoomMap\<close> sends to a room is
  in the member set of that room. A connection is in no room when no member set holds it.
\<close>

definition registry_consistent :: "server \<Rightarrow> bool" where
  "registry_consistent s =
     (\<forall>c r. userRoomMap s c = Some r \<longrightarrow> (\<exists>users. roomUsers s r = Some users \<and> c \<in> set users))"

definition in_no_room :: "server \<Rightarrow> socketId \<Rightarrow> bool" where
  "in_no_room s c = (\<forall>r users. roomUsers s r = Some users \<longrightarrow> c \<notin> set users)"

text \<open>
  A run is free of collisions when every \<open>create-room\<close> in it draws an id that no
  registered room has at that moment.
\<close>

fun fresh_id :: "'p op \<Rightarrow> server \<Rightarrow> bool" where
  "fresh_id (CreateRoom c draws) s = (roomUsers s (generateRoomId draws) = None)"
| "fresh_id x s = True"

fun collision_free :: "'p op list \<Rightarrow> server \<Rightarrow> world \<Rightarrow> bool" where
  "collision_free [] s w = True"
| "collision_free (x # xs) s w =
     (fresh_id x s \<and>
      (case handle x s w of
         (Inr (s1, out), w1) \<Rightarrow> collision_free xs s1 w1
       | (Inl e, w1) \<Rightarrow> False))"

section \<open>Properties\<close>

subsection \<open>Awaiting, and analytics calls that always return\<close>

lemma fst_return [simp]: "fst (return a w) = Inr a"
  by (simp add: return_def)

lemma snd_return [simp]: "snd (return a w) = w"
  by (simp add: return_def)

lemma fst_bind:
  "fst (bind m f w) = (case fst (m w) of Inl e \<Rightarrow> Inl e | Inr a \<Rightarrow> fst (f a (snd (m w))))"
  by (cases "m w") (simp add: bind_def split: sum.splits)

lemma snd_bind:
  "snd (bind m f w) = (case fst (m w) of Inl e \<Rightarrow> snd (m w) | Inr a \<Rightarrow> snd (f a (snd (m w))))"
  by (cases "m w") (simp add: bind_def split: sum.splits)

lemma try_catch_logged [simp]:
  fixes m :: "unit io"
  shows "fst (try_catch m (console_error prefix) w) = Inr ()"
  by (cases "m w") (auto simp: try_catch_def console_error_def split: sum.splits)

lemma incrementDailyStat_returns [simp]: "fst (incrementDailyStat field amount w) = Inr ()"
  by (simp add: incrementDailyStat_def)

lemma incrementHourlyStat_returns [simp]: "fst (incrementHourlyStat field amount w) = Inr ()"
  by (simp add: incrementHourlyStat_def)

lemma trackRoomCreated_returns [simp]: "fst (trackRoomCreated rid uid w) = Inr ()"
  by (simp add: trackRoomCreated_def)

lemma trackRoomJoined_returns [simp]: "fst (trackRoomJoined rid uid n w) = Inr ()"
  by (simp add: trackRoomJoined_def)

lemma trackRoomClosed_returns [simp]: "fst (trackRoomClosed rid w) = Inr ()"
  by (simp add: trackRoomClosed_def)

lemma trackUserLeft_returns [simp]: "fst (trackUserLeft rid uid n w) = Inr ()"
  by (simp add: trackUserLeft_def)

lemma trackSignalingEvent_returns [simp]: "fst (trackSignalingEvent rid k w) = Inr ()"
  by (simp add: trackSignalingEvent_def)

lemma logError_returns [simp]: "fst (logError ety msg md w) = Inr ()"
  by (simp add: logError_def)

lemma awaited_returns [simp]: "fst (awaited k w) = Inr ()"
  by (cases k) simp_all

subsection \<open>Evaluating the handlers\<close>

lemma generateRoomId_zero: "generateRoomId (\<lambda>_. 0) = ''AAAAAA''"
  by (simp add: generateRoomId_def chars_def ROOM_ID_LENGTH_def upt_rec)

lemma generateRoomId_length: "length (generateRoomId draws) = ROOM_ID_LENGTH"
  by (simp add: generateRoomId_def)

lemma generateRoomId_truthy: "generateRoomId draws \<noteq> []"
  using generateRoomId_length [of draws] by (auto simp: ROOM_ID_LENGTH_def)

lemmas stretch_defs = on_connection_def create_room_begin_def join_room_begin_def
  leave_room_begin_def relay_begin_def on_close_def disconnecting_begin_def disconnect_def
  deleteRoom_def in_live_room_def socket_join_def socket_leave_def leaveAll_def to_self_def
  socket_to_def io_to_def getRoomOccupancy_def isRoomFull_def roomExists_def set_add_def
  set_delete_def MAX_ROOM_CAPACITY_def

lemma fst_alone: "fst (alone r w) = Inr (settled r)"
  by (auto simp: alone_def settled_def fst_bind split: prod.splits option.splits)

lemma snd_alone:
  "snd (alone r w) = (case snd (snd r) of None \<Rightarrow> w | Some k \<Rightarrow> snd (awaited k w))"
  by (auto simp: alone_def snd_bind split: prod.splits option.splits)

lemma fst_handle: "fst (handle x s w) = Inr (settled (start x s))"
  by (simp add: handle_def fst_alone)

lemma snd_handle:
  "snd (handle x s w) = (case snd (snd (start x s)) of None \<Rightarrow> w | Some k \<Rightarrow> snd (awaited k w))"
  by (simp add: handle_def snd_alone)

lemmas handler_defs = fst_handle snd_handle settled_def stretch_defs

lemma handle_returns: "\<exists>s' out. fst (handle x s w) = Inr (s', out)"
  by (cases "settled (start x s)") (simp add: fst_handle)

lemma run_returns: "\<exists>s' out. fst (run ops s w) = Inr (s', out)"
proof (induction ops arbitrary: s w)
  case Nil
  show ?case by simp
next
  case (Cons x xs)
  obtain s1 out1 where h: "fst (handle x s w) = Inr (s1, out1)"
    using handle_returns by blast
  obtain s2 out2 where r: "fst (run xs s1 (snd (handle x s w))) = Inr (s2, out2)"
    using Cons.IH by blast
  show ?case by (simp add: fst_bind h r)
qed

lemma in_live_room_None: "userRoomMap s c = None \<Longrightarrow> in_live_room s c = None"
  by (simp add: in_live_room_def)

lemma leaveAll_registries [simp]:
  "roomUsers (leaveAll c s) = roomUsers s" "userRoomMap (leaveAll c s) = userRoomMap s"
  by (simp_all add: leaveAll_def)

lemma disconnect_None: "userRoomMap s c = None \<Longrightarrow> disconnect c s = s"
  by (simp add: disconnect_def)

text \<open>
  An event of the three relayed kinds that carries an object is handled as the relay of
  its fields; one that carries none makes the handler throw before it does anything.
\<close>

lemma relay_listener_cases:
  "relay_listener kind c (Fields payload rid) s = Inr (start (Relay kind c payload rid) s)"
  "relay_listener kind c NoObject s = Inl TypeError"
  by (simp_all add: relay_listener_def)

subsection \<open>Room capacity\<close>

text \<open>
  C1. The claim: in every run each room holds at most two members, and a join to a room
  that already holds two is refused with \<open>ROOM_FULL\<close>. The source tests
  \<open>getRoomOccupancy(roomId) > MAX_ROOM_CAPACITY\<close>, which is false at two members: after
  A creates the room and B joins it, the join of C is admitted. The room then has three
  members, C is told \<open>room-joined\<close> with occupancy 3, and only now is \<open>room-full\<close>
  broadcast.
\<close>

theorem third_member_admitted:
  "(case fst (run [Connect ''A'', CreateRoom ''A'' (\<lambda>_. 0), Connect ''B'', JoinRoom ''B'' ''AAAAAA'',
                   Connect ''C'', JoinRoom ''C'' ''AAAAAA''] init_server world0) of
      Inl e \<Rightarrow> False
    | Inr (s, out) \<Rightarrow>
        roomUsers s ''AAAAAA'' = Some [''A'', ''B'', ''C''] \<and>
        getRoomOccupancy s ''AAAAAA'' = 3 \<and>
        inbox ''C'' out =
          [RoomJoined ''AAAAAA'' 3 2 True,
           RoomFull ''AAAAAA'' 3 None ''Room is now full. No more users can join.'' :: string event])"
  by (simp add: fst_bind snd_bind handler_defs generateRoomId_zero init_server_def Let_def inbox_def)

text \<open>
  C4. The claim: when B joins the room that holds A alone, both are told occupancy 2 with
  \<open>isFull\<close> true, and then \<open>room-full\<close> is broadcast once. By the same comparison the
  source reports \<open>isFull\<close> false at occupancy 2 and emits exactly two events, neither of
  them \<open>room-full\<close>.
\<close>

theorem second_member_not_full:
  "(case fst (run [Connect ''A'', CreateRoom ''A'' (\<lambda>_. 0), Connect ''B'' :: string op]
               init_server world0) of
      Inl e \<Rightarrow> False
    | Inr (s, out0) \<Rightarrow>
        roomUsers s ''AAAAAA'' = Some [''A''] \<and>
        (case fst (handle (JoinRoom ''B'' ''AAAAAA'' :: string op) s world0) of
           Inl e \<Rightarrow> False
         | Inr (s', out) \<Rightarrow>
             out = [([''A''], UserJoined ''B'' 2 2 False),
                    ([''B''], RoomJoined ''AAAAAA'' 2 2 False)]))"
  by (simp add: fst_bind snd_bind handler_defs generateRoomId_zero init_server_def Let_def)

subsection \<open>The two registries agree when handlers run in turn and room ids do not collide\<close>

lemma unregistered_when_in_no_room:
  "registry_consistent s \<Longrightarrow> in_no_room s c \<Longrightarrow> userRoomMap s c = None"
  by (cases "userRoomMap s c") (auto simp: registry_consistent_def in_no_room_def)

lemma removeAll_empty_iff: "removeAll c ys = [] \<longleftrightarrow> (\<forall>x \<in> set ys. x = c)"
  by (induction ys) auto

lemma consistent_after_removal:
  assumes J: "registry_consistent s"
    and c: "userRoomMap s c = Some r" and r: "roomUsers s r = Some users"
    and m': "userRoomMap s' = (userRoomMap s)(c := None)"
    and r': "roomUsers s' = (if removeAll c users = [] then (roomUsers s)(r := None)
                             else (roomUsers s)(r \<mapsto> removeAll c users))"
  shows "registry_consistent s'"
  unfolding registry_consistent_def
proof (intro allI impI)
  fix ca q
  assume a: "userRoomMap s' ca = Some q"
  then have ne: "ca \<noteq> c" and old: "userRoomMap s ca = Some q"
    by (auto simp: m' split: if_splits)
  from J old obtain us where us: "roomUsers s q = Some us" "ca \<in> set us"
    by (auto simp: registry_consistent_def)
  show "\<exists>users. roomUsers s' q = Some users \<and> ca \<in> set users"
  proof (cases "q = r")
    case False
    with us show ?thesis by (simp add: r')
  next
    case True
    with us r have "ca \<in> set users" by simp
    with ne have mem: "ca \<in> set (removeAll c users)" by simp
    then have "removeAll c users \<noteq> []" by (auto simp: removeAll_empty_iff)
    with mem True show ?thesis
      by (simp add: r')
  qed
qed

lemma leave_room_effect:
  "(case settled (start (LeaveRoom c) s) of
      (s', out) \<Rightarrow>
        (case in_live_room s c of
           None \<Rightarrow> s' = s
         | Some r \<Rightarrow>
             userRoomMap s' = (userRoomMap s)(c := None) \<and>
             roomUsers s' =
               (if removeAll c (the (roomUsers s r)) = [] then (roomUsers s)(r := None)
                else (roomUsers s)(r \<mapsto> removeAll c (the (roomUsers s r))))))"
  by (auto simp: settled_def leave_room_begin_def socket_leave_def Let_def deleteRoom_def
      set_delete_def split: option.splits)

lemma close_effect:
  "(case settled (start (Disconnect c) s) of
      (s', out) \<Rightarrow>
        (case in_live_room s c of
           None \<Rightarrow> userRoomMap s' = (if userRoomMap s c = Some [] then userRoomMap s
                                      else (userRoomMap s)(c := None)) \<and>
                   roomUsers s' = roomUsers s
         | Some r \<Rightarrow>
             userRoomMap s' = (userRoomMap s)(c := None) \<and>
             roomUsers s' =
               (if removeAll c (the (roomUsers s r)) = [] then (roomUsers s)(r := None)
                else (roomUsers s)(r \<mapsto> removeAll c (the (roomUsers s r))))))"
  by (auto simp: settled_def on_close_def disconnecting_begin_def disconnect_def leaveAll_def
      Let_def deleteRoom_def set_delete_def in_live_room_def split: option.splits if_splits)

lemma consistent_after_entry:
  assumes J: "registry_consistent s"
    and m': "userRoomMap s' = (userRoomMap s)(c \<mapsto> r)"
    and r': "roomUsers s' = (roomUsers s)(r \<mapsto> users)"
    and c: "c \<in> set users"
    and keep: "\<And>old. roomUsers s r = Some old \<Longrightarrow> set old \<subseteq> set users"
    and fresh: "roomUsers s r = None \<Longrightarrow> \<forall>ca. userRoomMap s ca \<noteq> Some r"
  shows "registry_consistent s'"
  unfolding registry_consistent_def
proof (intro allI impI)
  fix ca q
  assume a: "userRoomMap s' ca = Some q"
  show "\<exists>users. roomUsers s' q = Some users \<and> ca \<in> set users"
  proof (cases "ca = c")
    case True
    with a have "q = r" by (simp add: m')
    with True c show ?thesis by (simp add: r')
  next
    case False
    with a have old: "userRoomMap s ca = Some q" by (simp add: m')
    from J old obtain us where us: "roomUsers s q = Some us" "ca \<in> set us"
      by (auto simp: registry_consistent_def)
    show ?thesis
    proof (cases "q = r")
      case False
      with us show ?thesis by (simp add: r')
    next
      case True
      with us keep [of us] show ?thesis by (auto simp: r')
    qed
  qed
qed

lemma create_room_effect:
  "(case settled (start (CreateRoom c draws) s) of
      (s', out) \<Rightarrow>
        userRoomMap s' = (userRoomMap s)(c \<mapsto> generateRoomId draws) \<and>
        roomUsers s' = (roomUsers s)(generateRoomId draws \<mapsto> [c]))"
  by (simp add: settled_def create_room_begin_def socket_join_def Let_def)

lemma join_room_effect:
  "(case settled (start (JoinRoom c rid) s) of
      (s', out) \<Rightarrow>
        (if roomExists s rid \<and> \<not> isRoomFull s rid
         then userRoomMap s' = (userRoomMap s)(c \<mapsto> rid) \<and>
              roomUsers s' = (roomUsers s)(rid \<mapsto> set_add c (the (roomUsers s rid)))
         else s' = s))"
  by (simp add: settled_def join_room_begin_def socket_join_def Let_def)

lemma case_pairD: "(case x of (a, b) \<Rightarrow> P a b) \<Longrightarrow> x = (p, q) \<Longrightarrow> P p q"
  by simp

lemma settled_registry_consistent:
  assumes J: "registry_consistent s" and f: "fresh_id x s"
    and h: "settled (start x s) = (s', out)"
  shows "registry_consistent s'"
proof (cases x)
  case (Connect c)
  with h J show ?thesis
    by (auto simp: settled_def on_connection_def socket_join_def registry_consistent_def)
next
  case (CreateRoom c draws)
  with h have h': "settled (start (CreateRoom c draws) s) = (s', out)"
    by simp
  from case_pairD [OF create_room_effect h']
  have e: "userRoomMap s' = (userRoomMap s)(c \<mapsto> generateRoomId draws)"
    "roomUsers s' = (roomUsers s)(generateRoomId draws \<mapsto> [c])"
    by simp_all
  from f CreateRoom have none: "roomUsers s (generateRoomId draws) = None"
    by simp
  show ?thesis
  proof (rule consistent_after_entry [OF J e])
    show "c \<in> set [c]" by simp
    show "set old \<subseteq> set [c]" if "roomUsers s (generateRoomId draws) = Some old" for old
      using that none by simp
    show "\<forall>ca. userRoomMap s ca \<noteq> Some (generateRoomId draws)"
      using J none by (fastforce simp: registry_consistent_def)
  qed
next
  case (JoinRoom c rid)
  with h have h': "settled (start (JoinRoom c rid) s) = (s', out)"
    by simp
  show ?thesis
  proof (cases "roomExists s rid \<and> \<not> isRoomFull s rid")
    case False
    with case_pairD [OF join_room_effect h'] have "s' = s"
      by (simp split: if_splits)
    with J show ?thesis by simp
  next
    case True
    with case_pairD [OF join_room_effect h']
    have e: "userRoomMap s' = (userRoomMap s)(c \<mapsto> rid)"
      "roomUsers s' = (roomUsers s)(rid \<mapsto> set_add c (the (roomUsers s rid)))"
      by simp_all
    from True obtain old where old: "roomUsers s rid = Some old"
      by (auto simp: roomExists_def)
    show ?thesis
    proof (rule consistent_after_entry [OF J e])
      show "c \<in> set (set_add c (the (roomUsers s rid)))"
        by (simp add: set_add_def)
      show "set o' \<subseteq> set (set_add c (the (roomUsers s rid)))"
        if "roomUsers s rid = Some o'" for o'
        using that by (auto simp: set_add_def)
      show "\<forall>ca. userRoomMap s ca \<noteq> Some rid" if "roomUsers s rid = None"
        using that old by simp
    qed
  qed
next
  case (LeaveRoom c)
  with h have h': "settled (start (LeaveRoom c) s) = (s', out)"
    by simp
  show ?thesis
  proof (cases "in_live_room s c")
    case None
    with case_pairD [OF leave_room_effect h'] J show ?thesis
      by simp
  next
    case (Some r)
    then have c: "userRoomMap s c = Some r"
      by (auto simp: in_live_room_def split: option.splits if_splits)
    with J obtain users where r: "roomUsers s r = Some users"
      by (auto simp: registry_consistent_def)
    from Some r case_pairD [OF leave_room_effect h']
    have "userRoomMap s' = (userRoomMap s)(c := None)"
      "roomUsers s' = (if removeAll c users = [] then (roomUsers s)(r := None)
                       else (roomUsers s)(r \<mapsto> removeAll c users))"
      by simp_all
    then show ?thesis
      by (rule consistent_after_removal [OF J c r])
  qed
next
  case (Relay kind c payload rid)
  with h J show ?thesis
    by (auto simp: settled_def relay_begin_def)
next
  case (Disconnect c)
  with h have h': "settled (start (Disconnect c) s) = (s', out)"
    by simp
  show ?thesis
  proof (cases "in_live_room s c")
    case None
    with case_pairD [OF close_effect h']
    have "userRoomMap s' = (if userRoomMap s c = Some [] then userRoomMap s
                            else (userRoomMap s)(c := None))"
      and "roomUsers s' = roomUsers s"
      by simp_all
    with J show ?thesis
      by (auto simp: registry_consistent_def split: if_splits)
  next
    case (Some r)
    then have c: "userRoomMap s c = Some r"
      by (auto simp: in_live_room_def split: option.splits if_splits)
    with J obtain users where r: "roomUsers s r = Some users"
      by (auto simp: registry_consistent_def)
    from Some r case_pairD [OF close_effect h']
    have "userRoomMap s' = (userRoomMap s)(c := None)"
      "roomUsers s' = (if removeAll c users = [] then (roomUsers s)(r := None)
                       else (roomUsers s)(r \<mapsto> removeAll c users))"
      by simp_all
    then show ?thesis
      by (rule consistent_after_removal [OF J c r])
  qed
qed

lemma run_registry_consistent:
  assumes "registry_consistent s" "collision_free ops s w"
  shows "(case fst (run ops s w) of Inl e \<Rightarrow> False
          | Inr (s', out) \<Rightarrow> registry_consistent s')"
  using assms
proof (induction ops arbitrary: s w)
  case Nil
  then show ?case by simp
next
  case (Cons x xs)
  obtain s1 out1 where st: "settled (start x s) = (s1, out1)"
    by (cases "settled (start x s)") simp
  then have h: "fst (handle x s w) = Inr (s1, out1)"
    by (simp add: fst_handle)
  from Cons.prems(2) have f: "fresh_id x s"
    by simp
  have J1: "registry_consistent s1"
    by (rule settled_registry_consistent [OF Cons.prems(1) f st])
  obtain w1 where hw: "handle x s w = (Inr (s1, out1), w1)"
    using h by (cases "handle x s w") simp
  with Cons.prems(2) have cf: "collision_free xs s1 (snd (handle x s w))"
    by simp
  obtain s2 out2 where r: "fst (run xs s1 (snd (handle x s w))) = Inr (s2, out2)"
    using run_returns by blast
  from Cons.IH [OF J1 cf] r have "registry_consistent s2"
    by simp
  then show ?case
    by (simp add: fst_bind h r)
qed

subsection \<open>Leaving and disconnecting outside any room\<close>

text \<open>
  C10. A \<open>leave-room\<close> from a connection that is in no room changes neither registry,
  emits nothing (no \<open>room-left\<close>, no error), and makes no store call. Being in no room
  is read off the connection registry (\<open>userRoomMap\<close> has no entry for the connection),
  or off the member sets where the registries agree, as they do after every run without
  id collision whose handlers do not overlap.
\<close>

theorem leave_room_outside_noop:
  assumes "userRoomMap s c = None \<or> (registry_consistent s \<and> in_no_room s c)"
  shows "handle (LeaveRoom c) s w = (Inr (s, []), w)"
proof -
  from assms have "userRoomMap s c = None"
    by (auto dest: unregistered_when_in_no_room)
  then show ?thesis
    by (simp add: handle_def alone_def leave_room_begin_def in_live_room_None return_def)
qed

theorem leave_room_outside_noop_witness:
  "userRoomMap (init_server\<lparr>roomUsers := [''AAAAAA'' \<mapsto> [''A'']],
                             userRoomMap := [''A'' \<mapsto> ''AAAAAA'']\<rparr>) ''B'' = None \<and>
   handle (LeaveRoom ''B'')
     (init_server\<lparr>roomUsers := [''AAAAAA'' \<mapsto> [''A'']],
                   userRoomMap := [''A'' \<mapsto> ''AAAAAA'']\<rparr>) world0
   = (Inr (init_server\<lparr>roomUsers := [''AAAAAA'' \<mapsto> [''A'']],
                        userRoomMap := [''A'' \<mapsto> ''AAAAAA'']\<rparr>,
           [] :: string emission list), world0)"
  using leave_room_outside_noop
    [of "init_server\<lparr>roomUsers := [''AAAAAA'' \<mapsto> [''A'']],
                      userRoomMap := [''A'' \<mapsto> ''AAAAAA'']\<rparr>" "''B''" world0]
  by simp

lemma close_clears:
  assumes "fst (handle (Disconnect c) s w) = Inr (s1, out)" and "userRoomMap s c \<noteq> Some []"
  shows "userRoomMap s1 c = None"
proof -
  from assms(1) have h: "settled (start (Disconnect c) s) = (s1, out)"
    by (simp add: fst_handle)
  from case_pairD [OF close_effect h] assms(2) show ?thesis
    by (cases "in_live_room s c") (auto split: if_splits)
qed

text \<open>
  C7. The close of a connection that is in no room, because it never joined, has left,
  or has been closed before (its entry, if any, named a room), leaves \<open>roomUsers\<close> and
  \<open>userRoomMap\<close> as they are and emits nothing. Being in no room is read as for C10.
\<close>

theorem teardown_outside_noop:
  assumes "userRoomMap s c = None \<or>
           (registry_consistent s \<and> in_no_room s c) \<or>
           (\<exists>s0 w0 out0. userRoomMap s0 c \<noteq> Some [] \<and>
              fst (handle (Disconnect c) s0 w0) = Inr (s, out0 :: 'p emission list))"
  shows "fst (handle (Disconnect c) s w) = Inr (leaveAll c s, [] :: 'p emission list)
         \<and> roomUsers (leaveAll c s) = roomUsers s
         \<and> userRoomMap (leaveAll c s) = userRoomMap s"
proof -
  from assms have none: "userRoomMap s c = None"
    by (auto dest: close_clears unregistered_when_in_no_room)
  then have "fst (handle (Disconnect c) s w) = Inr (leaveAll c s, [] :: 'p emission list)"
    by (simp add: fst_handle settled_def on_close_def disconnecting_begin_def
        in_live_room_None disconnect_None)
  then show ?thesis by simp
qed

theorem teardown_outside_noop_witness:
  "userRoomMap (init_server\<lparr>roomUsers := [''AAAAAA'' \<mapsto> [''A'']],
                             userRoomMap := [''A'' \<mapsto> ''AAAAAA'']\<rparr>) ''B'' = None \<and>
   fst (handle (Disconnect ''B'')
     (init_server\<lparr>roomUsers := [''AAAAAA'' \<mapsto> [''A'']],
                   userRoomMap := [''A'' \<mapsto> ''AAAAAA'']\<rparr>) world0)
   = Inr (leaveAll ''B'' (init_server\<lparr>roomUsers := [''AAAAAA'' \<mapsto> [''A'']],
                        userRoomMap := [''A'' \<mapsto> ''AAAAAA'']\<rparr>),
           [] :: string emission list) \<and>
   roomUsers (leaveAll ''B'' (init_server\<lparr>roomUsers := [''AAAAAA'' \<mapsto> [''A'']],
                        userRoomMap := [''A'' \<mapsto> ''AAAAAA'']\<rparr>)) = [''AAAAAA'' \<mapsto> [''A'']] \<and>
   userRoomMap (leaveAll ''B'' (init_server\<lparr>roomUsers := [''AAAAAA'' \<mapsto> [''A'']],
                        userRoomMap := [''A'' \<mapsto> ''AAAAAA'']\<rparr>)) = [''A'' \<mapsto> ''AAAAAA'']"
  using teardown_outside_noop
    [of "init_server\<lparr>roomUsers := [''AAAAAA'' \<mapsto> [''A'']],
                      userRoomMap := [''A'' \<mapsto> ''AAAAAA'']\<rparr>" "''B''" world0]
  by simp

subsection \<open>Runs in turn among the interleaved runs\<close>

lemma sched_arrive_return:
  "sched (Arrive x # Return 0 # ms) (s, []) =
     (case settled (start x s) of
        (s1, out1) \<Rightarrow> (case sched ms (s1, []) of (p2, out2) \<Rightarrow> (p2, out1 @ out2)))"
  by (cases "start x s" rule: prod_cases3)
     (auto simp: settled_def split: prod.splits option.splits)

text \<open>
  A run is the interleaved run in which the call awaited by each handler returns before
  the next operation arrives.
\<close>

lemma run_in_turn:
  "fst (run ops s w) =
     Inr (case sched (in_turn ops) (s, []) of ((s', ks), out) \<Rightarrow> (s', out)) \<and>
   snd (fst (sched (in_turn ops) (s, []))) = []"
proof (induction ops arbitrary: s w)
  case Nil
  show ?case by simp
next
  case (Cons x xs)
  obtain s1 out1 where st: "settled (start x s) = (s1, out1)"
    by (cases "settled (start x s)") simp
  obtain s2 ks2 out2 where rest: "sched (in_turn xs) (s1, []) = ((s2, ks2), out2)"
    by (metis surj_pair)
  have all: "sched (in_turn (x # xs)) (s, []) = ((s2, ks2), out1 @ out2)"
    by (simp add: sched_arrive_return st rest del: sched.simps)
  from Cons.IH [of s1 "snd (handle x s w)"] rest
  have r: "fst (run xs s1 (snd (handle x s w))) = Inr (s2, out2)" and e: "ks2 = []"
    by simp_all
  have h: "fst (handle x s w) = Inr (s1, out1)"
    by (simp add: fst_handle st)
  show ?case
    by (simp only: all) (simp add: fst_bind h r e)
qed

subsection \<open>Rooms are deleted after the await that follows the removal of the last member\<close>

text \<open>
  When the handlers run in turn, no room is left empty: the handler that removes the last
  member of a room deletes the room before any other handler runs.
\<close>

lemma settled_no_empty_room:
  assumes "no_empty_room s" "ids_truthy s"
  shows "no_empty_room (fst (settled (start x s))) \<and> ids_truthy (fst (settled (start x s)))"
proof (cases x)
  case (Connect c)
  with assms show ?thesis
    by (auto simp: settled_def on_connection_def socket_join_def no_empty_room_def ids_truthy_def)
next
  case (CreateRoom c draws)
  with assms generateRoomId_truthy [of draws] show ?thesis
    by (auto simp: settled_def create_room_begin_def socket_join_def Let_def no_empty_room_def
        ids_truthy_def)
next
  case (JoinRoom c rid)
  with assms show ?thesis
    by (auto simp: settled_def join_room_begin_def socket_join_def Let_def no_empty_room_def
        ids_truthy_def set_add_def roomExists_def split: if_splits)
next
  case (LeaveRoom c)
  with assms show ?thesis
    by (auto simp: settled_def leave_room_begin_def socket_leave_def Let_def no_empty_room_def
        ids_truthy_def deleteRoom_def in_live_room_def split: if_splits option.splits)
next
  case (Relay kind c payload rid)
  with assms show ?thesis
    by (auto simp: settled_def relay_begin_def)
next
  case (Disconnect c)
  with assms show ?thesis
    by (auto simp: settled_def on_close_def disconnecting_begin_def disconnect_def leaveAll_def
        Let_def no_empty_room_def ids_truthy_def deleteRoom_def in_live_room_def
        split: if_splits option.splits)
qed

lemma run_no_empty_room:
  assumes "no_empty_room s" "ids_truthy s"
  shows "(case fst (run ops s w) of Inl e \<Rightarrow> False
          | Inr (s', out) \<Rightarrow> no_empty_room s' \<and> ids_truthy s')"
  using assms
proof (induction ops arbitrary: s w)
  case Nil
  then show ?case by simp
next
  case (Cons x xs)
  obtain s1 out1 where st: "settled (start x s) = (s1, out1)"
    by (cases "settled (start x s)") simp
  from settled_no_empty_room [OF Cons.prems, of x] st
  have inv: "no_empty_room s1" "ids_truthy s1"
    by simp_all
  have h: "fst (handle x s w) = Inr (s1, out1)"
    by (simp add: fst_handle st)
  obtain s2 out2 where r: "fst (run xs s1 (snd (handle x s w))) = Inr (s2, out2)"
    using run_returns by blast
  from Cons.IH [OF inv, of "snd (handle x s w)"] r
  have "no_empty_room s2 \<and> ids_truthy s2"
    by simp
  then show ?case
    by (simp add: fst_bind h r)
qed

text \<open>
  The close of the last member of a room, with nothing else running: the room is deleted
  when the \<open>disconnecting\<close> listener resumes, by which time socket.io has taken the socket
  out of the socket room, so the \<open>room-dismissed\<close> event is addressed to nobody.
\<close>

lemma last_member_closes:
  "(case fst (run [Connect ''A'', CreateRoom ''A'' (\<lambda>_. 0), Disconnect ''A'' :: string op]
               init_server world0) of
      Inl e \<Rightarrow> False
    | Inr (s, out) \<Rightarrow>
        roomUsers s = Map.empty \<and> userRoomMap s = Map.empty \<and>
        out = [([''A''], RoomCreated ''AAAAAA'' 1 2),
               ([], RoomDismissed ''AAAAAA'' ''Room closed'')])"
  by (simp add: fst_bind snd_bind handler_defs generateRoomId_zero init_server_def Let_def)

text \<open>
  C5. The claim: after every completed operation no registered room is empty, a room being
  deleted in the transition that removes its last member. In the source the removal is
  before \<open>await trackUserLeft(...)\<close> and \<open>deleteRoom\<close> after it, decided on the occupancy
  read before the \<open>await\<close>. A creates a room and leaves it; while the handler of that
  \<open>leave-room\<close> is suspended, B connects: that operation is completed, and the emptied room
  is registered. B then joins the room and is told so; when the handler of A resumes, it
  deletes the room, which holds B, and B is told that the room is closed. B is left with
  an entry for a room that does not exist, and a \<open>leave-room\<close> from B does nothing.
\<close>

theorem emptied_room_joined_then_deleted:
  "(case sched [Arrive (Connect ''A''), Arrive (CreateRoom ''A'' (\<lambda>_. 0)), Return 0,
                Arrive (LeaveRoom ''A''), Arrive (Connect ''B'')] (init_server, []) of
      ((s, ks), out0) \<Rightarrow>
        roomUsers s ''AAAAAA'' = Some [] \<and>
        ks = [AfterLeave ''A'' ''AAAAAA'' 0] \<and>
        (case sched [Arrive (JoinRoom ''B'' ''AAAAAA''), Return 1, Return 0] (s, ks) of
           ((s', ks'), out) \<Rightarrow>
             ks' = [] \<and>
             roomUsers s' ''AAAAAA'' = None \<and>
             userRoomMap s' ''B'' = Some ''AAAAAA'' \<and>
             inbox ''B'' out =
               [RoomJoined ''AAAAAA'' 1 2 False,
                RoomDismissed ''AAAAAA'' ''Room closed'' :: string event] \<and>
             step (Arrive (LeaveRoom ''B'')) (s', ks') = ((s', []), [])))"
  by (simp add: stretch_defs generateRoomId_zero init_server_def Let_def inbox_def)

subsection \<open>Relay of offers, answers and candidates\<close>

text \<open>
  Through every move of the server, room ids stay non-empty strings and every connection
  with an entry in \<open>userRoomMap\<close> stays subscribed to the socket room of that entry.
\<close>

lemma start_subscribed:
  assumes "ids_truthy s" "members_subscribed s"
  shows "ids_truthy (fst (start x s)) \<and> members_subscribed (fst (start x s))"
proof (cases x)
  case (Connect c)
  with assms show ?thesis
    by (auto simp: on_connection_def socket_join_def set_add_def ids_truthy_def
        members_subscribed_def)
next
  case (CreateRoom c draws)
  with assms generateRoomId_truthy [of draws] show ?thesis
    by (auto simp: create_room_begin_def socket_join_def set_add_def Let_def ids_truthy_def
        members_subscribed_def)
next
  case (JoinRoom c rid)
  with assms show ?thesis
    by (auto simp: join_room_begin_def socket_join_def set_add_def Let_def roomExists_def
        ids_truthy_def members_subscribed_def split: if_splits)
next
  case (LeaveRoom c)
  with assms show ?thesis
    by (auto simp: leave_room_begin_def socket_leave_def set_delete_def Let_def
        in_live_room_def ids_truthy_def members_subscribed_def split: option.splits if_splits)
next
  case (Relay kind c payload rid)
  with assms show ?thesis
    by (simp add: relay_begin_def)
next
  case (Disconnect c)
  with assms show ?thesis
    by (auto simp: on_close_def disconnecting_begin_def disconnect_def leaveAll_def
        set_delete_def Let_def in_live_room_def ids_truthy_def members_subscribed_def
        split: option.splits if_splits)
qed

lemma resume_subscribed:
  assumes "ids_truthy s" "members_subscribed s"
  shows "ids_truthy (fst (resume k s)) \<and> members_subscribed (fst (resume k s))"
  using assms
  by (cases k)
     (auto simp: deleteRoom_def ids_truthy_def members_subscribed_def Let_def
        split: if_splits prod.splits)

lemma step_subscribed:
  assumes "ids_truthy (fst p)" "members_subscribed (fst p)"
  shows "ids_truthy (fst (fst (step m p))) \<and> members_subscribed (fst (fst (step m p)))"
proof (cases p)
  case (Pair s ks)
  show ?thesis
  proof (cases m)
    case (Arrive x)
    with Pair assms start_subscribed [of s x] show ?thesis
      by (auto split: prod.splits)
  next
    case (Return i)
    with Pair assms resume_subscribed [of s "ks ! i"] show ?thesis
      by (auto split: prod.splits)
  qed
qed

lemma sched_subscribed:
  assumes "ids_truthy (fst p)" "members_subscribed (fst p)"
  shows "ids_truthy (fst (fst (sched ms p))) \<and> members_subscribed (fst (fst (sched ms p)))"
  using assms
proof (induction ms arbitrary: p)
  case Nil
  then show ?case by simp
next
  case (Cons m ms)
  from step_subscribed [OF Cons.prems, of m] Cons.IH [of "fst (step m p)"]
  show ?case
    by (auto split: prod.splits)
qed

lemma server_after_subscribed: "members_subscribed (server_after ms)"
  unfolding server_after_def
  using sched_subscribed [of "(init_server, [])" ms]
  by (simp add: ids_truthy_def members_subscribed_def init_server_def)

text \<open>
  C3, as claimed: a payload from a sender that is not a member of the named room is
  delivered to nobody. The relay handlers never look the sender up: C, in no room, names
  the room of A in an offer, and A receives it.
\<close>

theorem relay_from_outsider_delivered:
  "(case fst (run [Connect ''A'', CreateRoom ''A'' (\<lambda>_. 0), Connect ''C'' :: string op]
               init_server world0) of
      Inl e \<Rightarrow> False
    | Inr (s, out0) \<Rightarrow>
        userRoomMap s ''C'' = None \<and>
        roomUsers s ''AAAAAA'' = Some [''A''] \<and>
        (case fst (handle (Relay P_offer ''C'' ''sdp'' ''AAAAAA'') s world0) of
           Inl e \<Rightarrow> False
         | Inr (s', out) \<Rightarrow> inbox ''A'' out = [Offer ''sdp'']))"
  by (simp add: fst_bind snd_bind handler_defs generateRoomId_zero init_server_def Let_def inbox_def
      relayed_def)

text \<open>
  C3, amended: for every relay call, whether or not the sender is a member of the named
  room, the payload is delivered unchanged to every other current member of that room and
  is not echoed to the sender, who is sent no error either. A relay call is an \<open>offer\<close>,
  \<open>answer\<close> or \<open>ice-candidate\<close> event that carries its object. The current members of a
  room are the connections that \<open>userRoomMap\<close> sends to it at the moment the handler
  forwards the payload, which is when the call it awaits has returned.

  In any state \<open>s\<close>, the handler changes no registry and makes one emission, of the
  payload, addressed to the sockets subscribed to the room other than the sender; the
  sender receives nothing. In every state that the server reaches, by whatever
  interleaving of its handlers, every connection other than the sender whose entry in
  \<open>userRoomMap\<close> is the room receives the payload, once.
\<close>

theorem relay_reaches_members:
  fixes ms :: "'p move list"
  shows
  "start (Relay kind c payload rid) s = (s, [], Some (AfterRelay kind c payload rid)) \<and>
   resume (AfterRelay kind c payload rid) s = (s, [(socket_to c rid s, relayed kind payload)]) \<and>
   fst (handle (Relay kind c payload rid) s w)
     = Inr (s, [(socket_to c rid s, relayed kind payload)]) \<and>
   set (socket_to c rid s) = set (adapter s rid) - {c} \<and>
   inbox c [(socket_to c rid s, relayed kind payload)] = [] \<and>
   (\<forall>c'. userRoomMap (server_after ms) c' = Some rid \<and> c' \<noteq> c \<longrightarrow>
      inbox c' [(socket_to c rid (server_after ms), relayed kind payload)]
        = [relayed kind payload])"
proof -
  have "inbox c' [(socket_to c rid (server_after ms), relayed kind payload)]
          = [relayed kind payload]"
    if "userRoomMap (server_after ms) c' = Some rid" and "c' \<noteq> c" for c'
  proof -
    from that(1) server_after_subscribed [of ms]
    have "c' \<in> set (adapter (server_after ms) rid)"
      by (simp add: members_subscribed_def)
    with that(2) show ?thesis
      by (simp add: inbox_def socket_to_def)
  qed
  then show ?thesis
    by (auto simp: fst_handle settled_def relay_begin_def socket_to_def inbox_def)
qed

theorem relay_reaches_members_witness:
  "userRoomMap (server_after [Arrive (Connect ''A''), Arrive (CreateRoom ''A'' (\<lambda>_. 0)),
      Arrive (Connect ''B''), Arrive (JoinRoom ''B'' ''AAAAAA'') :: string move]) ''A''
     = Some ''AAAAAA'' \<and>
   inbox ''A'' [(socket_to ''B'' ''AAAAAA''
      (server_after [Arrive (Connect ''A''), Arrive (CreateRoom ''A'' (\<lambda>_. 0)),
         Arrive (Connect ''B''), Arrive (JoinRoom ''B'' ''AAAAAA'') :: string move]),
      Answer ''sdp'')] = [Answer ''sdp''] \<and>
   inbox ''B'' [(socket_to ''B'' ''AAAAAA''
      (server_after [Arrive (Connect ''A''), Arrive (CreateRoom ''A'' (\<lambda>_. 0)),
         Arrive (Connect ''B''), Arrive (JoinRoom ''B'' ''AAAAAA'') :: string move]),
      Answer ''sdp'')] = []"
proof -
  let ?ms = "[Arrive (Connect ''A''), Arrive (CreateRoom ''A'' (\<lambda>_. 0)),
      Arrive (Connect ''B''), Arrive (JoinRoom ''B'' ''AAAAAA'') :: string move]"
  have member: "userRoomMap (server_after ?ms) ''A'' = Some ''AAAAAA''"
    by (simp add: server_after_def stretch_defs generateRoomId_zero init_server_def Let_def)
  from relay_reaches_members [of P_answer "''B''" "''sdp''" "''AAAAAA''" "server_after ?ms"
      world0 ?ms] member
  show ?thesis
    by (simp add: relayed_def)
qed

subsection \<open>Store failures stay inside the analytics functions\<close>

lemma handle_independent: "fst (handle op s w) = fst (handle op s w')"
  by (simp add: fst_handle)

text \<open>
  C8. Each of the eight recording functions returns normally in every world, that is,
  whichever of its store operations throw; and every handled operation of the server
  returns the same registries and the same emissions in any two worlds, so with the store
  answering or failing.
\<close>

theorem store_failures_contained:
  "fst (trackRoomCreated rid uid w) = Inr () \<and>
   fst (trackRoomJoined rid uid n w) = Inr () \<and>
   fst (trackUserLeft rid uid n w) = Inr () \<and>
   fst (trackRoomClosed rid w) = Inr () \<and>
   fst (trackSignalingEvent rid k w) = Inr () \<and>
   fst (logError ety msg md w) = Inr () \<and>
   fst (incrementDailyStat field amount w) = Inr () \<and>
   fst (incrementHourlyStat hfield amount w) = Inr () \<and>
   (\<exists>s' out. fst (handle op s w) = Inr (s', out) \<and> fst (handle op s w') = Inr (s', out))"
proof -
  obtain s' out where h: "fst (handle op s w) = Inr (s', out)"
    using handle_returns by blast
  moreover have "fst (handle op s w') = fst (handle op s w)"
    by (rule handle_independent)
  ultimately show ?thesis by simp
qed

lemma store_down_raises:
  "fst (RoomEvent_create ''AAAAAA'' ET_joined ''B'' 2 world_down) = Inl PersistenceUnavailable"
  by (simp add: RoomEvent_create_def store_call_def world_down_def)

theorem store_failures_contained_witness:
  "fst (RoomEvent_create ''AAAAAA'' ET_joined ''B'' 2 world_down) = Inl PersistenceUnavailable \<and>
   fst (trackRoomJoined ''AAAAAA'' ''B'' 2 world_down) = Inr () \<and>
   (\<exists>s' out. fst (handle (JoinRoom ''B'' ''AAAAAA'' :: string op)
                    (init_server\<lparr>roomUsers := [''AAAAAA'' \<mapsto> [''A'']]\<rparr>) world_down) = Inr (s', out) \<and>
              fst (handle (JoinRoom ''B'' ''AAAAAA'')
                    (init_server\<lparr>roomUsers := [''AAAAAA'' \<mapsto> [''A'']]\<rparr>) world0) = Inr (s', out) \<and>
              roomUsers s' ''AAAAAA'' = Some [''A'', ''B''])"
proof -
  from store_failures_contained [of "''AAAAAA''" "''B''" world_down 2 K_offer E_other "[]"
      "\<lparr>md_roomId = [], md_userId = [], md_occupancy = None\<rparr>" "[]" 1 F_connections
      "JoinRoom ''B'' ''AAAAAA'' :: string op"
      "init_server\<lparr>roomUsers := [''AAAAAA'' \<mapsto> [''A'']]\<rparr>" world0]
  obtain s' out where
    t: "fst (trackRoomJoined ''AAAAAA'' ''B'' 2 world_down) = Inr ()"
    and h1: "fst (handle (JoinRoom ''B'' ''AAAAAA'' :: string op)
                    (init_server\<lparr>roomUsers := [''AAAAAA'' \<mapsto> [''A'']]\<rparr>) world_down) = Inr (s', out)"
    and h2: "fst (handle (JoinRoom ''B'' ''AAAAAA'' :: string op)
                    (init_server\<lparr>roomUsers := [''AAAAAA'' \<mapsto> [''A'']]\<rparr>) world0) = Inr (s', out)"
    by blast
  have "roomUsers s' ''AAAAAA'' = Some [''A'', ''B'']"
    using h2 by (auto simp: handler_defs init_server_def Let_def)
  with t h1 h2 store_down_raises show ?thesis by blast
qed


subsection \<open>The daily counters\<close>

lemma find_append_if:
  "find P (xs @ ys) = (case find P xs of None \<Rightarrow> find P ys | Some x \<Rightarrow> Some x)"
  by (induction xs) auto

lemma find_update_first:
  assumes "\<And>x. ds_date (g x) = ds_date x"
  shows "find (\<lambda>x. ds_date x = d') (update_first d g xs) =
         (if d' = d then map_option g (find (\<lambda>x. ds_date x = d) xs)
          else find (\<lambda>x. ds_date x = d') xs)"
  by (induction xs) (auto simp: assms)

lemma startOfDay_mono: "a \<le> b \<Longrightarrow> startOfDay a \<le> startOfDay b"
  by (simp add: startOfDay_def div_le_mono)

lemma startOfDay_le: "startOfDay t \<le> t"
  by (simp add: startOfDay_def)

text \<open>What one daily increment does to the world.\<close>

lemma incrementDailyStat_world:
  "env (snd (incrementDailyStat field amount w)) = env w"
  "calls (snd (incrementDailyStat field amount w)) = Suc (calls w)"
  "clock (snd (incrementDailyStat field amount w)) = clock w + snd (env w (calls w))"
  by (auto simp: incrementDailyStat_def try_catch_def bind_def now_def
      DailyStats_updateOne_inc_def store_call_def console_error_def Let_def
      split: prod.splits sum.splits)

lemma incrementDailyStat_counter:
  assumes "\<not> fst (env w (calls w))"
  shows "dailyCounter (db (snd (incrementDailyStat field amount w))) (startOfDay (clock w)) field
         = dailyCounter (db w) (startOfDay (clock w)) field + amount"
proof (cases "\<exists>x \<in> set (dailyStatsDocs (db w)). ds_date x = startOfDay (clock w)")
  case True
  then obtain doc where "find (\<lambda>x. ds_date x = startOfDay (clock w)) (dailyStatsDocs (db w)) = Some doc"
    by (cases "find (\<lambda>x. ds_date x = startOfDay (clock w)) (dailyStatsDocs (db w))")
       (auto simp: find_None_iff)
  with True assms show ?thesis
    by (auto simp: incrementDailyStat_def try_catch_def bind_def now_def
        DailyStats_updateOne_inc_def store_call_def Let_def dailyCounter_def
        find_update_first inc_counter_def
        split: prod.splits sum.splits)
next
  case False
  then have "find (\<lambda>x. ds_date x = startOfDay (clock w)) (dailyStatsDocs (db w)) = None"
    by (auto simp: find_None_iff)
  with False assms show ?thesis
    by (auto simp: incrementDailyStat_def try_catch_def bind_def now_def
        DailyStats_updateOne_inc_def store_call_def Let_def dailyCounter_def
        find_append_if inc_counter_def new_dailyStats_def
        split: prod.splits sum.splits)
qed

lemma repeatedly_daily_world:
  "env (snd (repeatedly n (incrementDailyStat field amount) w)) = env w \<and>
   calls (snd (repeatedly n (incrementDailyStat field amount) w)) = calls w + n \<and>
   clock w \<le> clock (snd (repeatedly n (incrementDailyStat field amount) w))"
proof (induction n arbitrary: w)
  case 0
  show ?case by simp
next
  case (Suc n)
  from Suc [of "snd (incrementDailyStat field amount w)"] show ?case
    by (simp add: snd_bind incrementDailyStat_world)
qed


lemma repeatedly_daily_counter:
  assumes "\<forall>i<n. \<not> fst (env w (calls w + i))"
    and "startOfDay (clock (snd (repeatedly n (incrementDailyStat field 1) w))) = startOfDay (clock w)"
  shows "dailyCounter (db (snd (repeatedly n (incrementDailyStat field 1) w))) (startOfDay (clock w)) field
         = dailyCounter (db w) (startOfDay (clock w)) field + n"
  using assms
proof (induction n arbitrary: w)
  case 0
  show ?case by simp
next
  case (Suc n)
  let ?w1 = "snd (incrementDailyStat field 1 w)"
  let ?wn = "snd (repeatedly n (incrementDailyStat field 1) ?w1)"
  have fin: "snd (repeatedly (Suc n) (incrementDailyStat field 1) w) = ?wn"
    by (simp add: snd_bind)
  have ok0: "\<not> fst (env w (calls w))"
    using Suc.prems(1) by (metis add.right_neutral zero_less_Suc)
  have okn: "\<forall>i<n. \<not> fst (env ?w1 (calls ?w1 + i))"
  proof (intro allI impI)
    fix i assume "i < n"
    then have "Suc i < Suc n" by simp
    with Suc.prems(1) have "\<not> fst (env w (calls w + Suc i))"
      by blast
    then show "\<not> fst (env ?w1 (calls ?w1 + i))"
      by (simp add: incrementDailyStat_world)
  qed
  have le1: "clock w \<le> clock ?w1"
    by (simp add: incrementDailyStat_world)
  have le2: "clock ?w1 \<le> clock ?wn"
    using repeatedly_daily_world [of n field 1 ?w1] by simp
  have same_end: "startOfDay (clock ?wn) = startOfDay (clock w)"
    using Suc.prems(2) by (simp only: fin)
  have day1: "startOfDay (clock ?w1) = startOfDay (clock w)"
    using startOfDay_mono [OF le1] startOfDay_mono [OF le2] same_end by simp
  have "dailyCounter (db ?wn) (startOfDay (clock ?w1)) field
        = dailyCounter (db ?w1) (startOfDay (clock ?w1)) field + n"
    using same_end day1 by (intro Suc.IH [OF okn]) simp
  then have "dailyCounter (db ?wn) (startOfDay (clock w)) field
        = dailyCounter (db ?w1) (startOfDay (clock w)) field + n"
    unfolding day1 .
  also have "dailyCounter (db ?w1) (startOfDay (clock w)) field
        = dailyCounter (db w) (startOfDay (clock w)) field + 1"
    by (rule incrementDailyStat_counter [OF ok0])
  finally show ?case unfolding fin by simp
qed

text \<open>
  C9. A call of \<open>incrementDailyStat\<close> makes exactly one store operation, the
  increment-or-insert on the document of the day, so concurrent calls reach the store as
  a sequence of such operations. When none of the \<open>n\<close> operations throws and the day does
  not change meanwhile, \<open>n\<close> calls with amount 1 for a field raise the counter of that
  field and day by exactly \<open>n\<close>.
\<close>

theorem daily_increments_all_counted:
  "calls (snd (incrementDailyStat field amount w)) = calls w + 1 \<and>
   ((\<forall>i<n. \<not> fst (env w (calls w + i))) \<and>
    startOfDay (clock (snd (repeatedly n (incrementDailyStat field 1) w))) = startOfDay (clock w)
    \<longrightarrow> dailyCounter (db (snd (repeatedly n (incrementDailyStat field 1) w))) (startOfDay (clock w)) field
         = dailyCounter (db w) (startOfDay (clock w)) field + n)"
  using repeatedly_daily_counter [of n w field]
  by (simp add: incrementDailyStat_world)

theorem daily_increments_all_counted_witness:
  "dailyCounter (db world0) 0 ''roomsCreated'' = 0 \<and>
   dailyCounter (db (snd (repeatedly 5 (incrementDailyStat ''roomsCreated'' 1) world0))) 0 ''roomsCreated'' = 5"
proof -
  have c: "startOfDay (clock world0) = 0"
    by (simp add: world0_def startOfDay_def)
  have clk: "startOfDay (clock (snd (repeatedly 5 (incrementDailyStat ''roomsCreated'' 1) world0))) = 0"
    by (simp add: eval_nat_numeral snd_bind incrementDailyStat_world world0_def startOfDay_def)
  have ok: "\<forall>i<5. \<not> fst (env world0 (calls world0 + i))"
    by (simp add: world0_def)
  have z: "dailyCounter (db world0) 0 ''roomsCreated'' = 0"
    by (simp add: dailyCounter_def world0_def empty_db_def)
  from daily_increments_all_counted [of "''roomsCreated''" 1 world0 5] ok
  have "dailyCounter (db (snd (repeatedly 5 (incrementDailyStat ''roomsCreated'' 1) world0))) 0 ''roomsCreated''
        = dailyCounter (db world0) 0 ''roomsCreated'' + 5"
    unfolding clk c by blast
  with z show ?thesis by simp
qed


subsection \<open>The hourly counters\<close>

lemma incrementHourlyStat_stretches:
  "incrementHourlyStat field amount w = bind hourly_begin (hourly_finish field amount) w"
  by (auto simp: incrementHourlyStat_def hourly_begin_def hourly_finish_def try_catch_def
      bind_def return_def now_def console_error_def split: prod.splits sum.splits)

lemmas store_defs = store_call_def DailyStats_findOne_def DailyStats_create_def DailyStats_save_def
  hourly_load_def hourly_store_def hourly_change_def apply_change_def get_field_def set_field_def
  new_dailyStats_def

text \<open>
  C2. The claim: concurrent hourly increments lose no update, the update not being a
  read, change in memory, write back. The source is that sequence: \<open>findOne\<close>, a change
  of the loaded copy, \<open>save\<close>; a call makes two store operations on an existing document.
  With the bucket of the hour at 1, two calls one after the other bring it to 3, and two
  calls that both load before either saves bring it to 2.
\<close>

theorem hourly_increment_lost:
  "hourlyCounter (db (snd (incrementHourlyStat F_connections 1 world0))) 0 0 F_connections = 1 \<and>
   calls (snd (incrementHourlyStat F_connections 1 (snd (incrementHourlyStat F_connections 1 world0))))
     = calls (snd (incrementHourlyStat F_connections 1 world0)) + 2 \<and>
   hourlyCounter (db (snd (two_hourly_in_turn F_connections
     (snd (incrementHourlyStat F_connections 1 world0))))) 0 0 F_connections = 3 \<and>
   hourlyCounter (db (snd (two_hourly_interleaved F_connections
     (snd (incrementHourlyStat F_connections 1 world0))))) 0 0 F_connections = 2"
  by (simp add: two_hourly_in_turn_def two_hourly_interleaved_def hourly_begin_def hourly_finish_def
      incrementHourlyStat_def try_catch_def bind_def return_def now_def store_defs world0_def
      empty_db_def startOfDay_def getHours_def hourlyCounter_def MS_PER_DAY_def MS_PER_HOUR_def
      Let_def)


subsection \<open>Room closures recorded twice\<close>

lemma trackRoomClosed_stretches:
  "trackRoomClosed rid w = bind (closed_begin rid) (closed_finish rid) w"
  by (auto simp: trackRoomClosed_def closed_begin_def closed_finish_def try_catch_def
      bind_def return_def now_def console_error_def split: prod.splits sum.splits)

lemmas closed_defs = trackRoomClosed_def closed_begin_def closed_finish_def
  incrementDailyStat_def RoomEvent_exists_def RoomEvent_create_def DailyStats_updateOne_inc_def
  inc_counter_def new_dailyStats_def store_call_def try_catch_def bind_def return_def now_def
  console_error_def closedEvents_def dailyCounter_def empty_db_def startOfDay_def
  MS_PER_DAY_def Let_def

text \<open>
  Two closures of one room can be in flight together. A leaves the room as its last
  member; before the handler of A has resumed, B joins the room and leaves it. Both
  \<open>leave-room\<close> handlers are then suspended in \<open>trackUserLeft\<close> with no member remaining,
  and each of the two calls goes on to \<open>trackRoomClosed\<close> for the room.
\<close>

lemma closures_in_flight_together:
  "(case sched [Arrive (Connect ''A''), Arrive (CreateRoom ''A'' (\<lambda>_. 0)), Return 0,
                Arrive (LeaveRoom ''A''), Arrive (Connect ''B''),
                Arrive (JoinRoom ''B'' ''AAAAAA''), Arrive (LeaveRoom ''B'') :: string move]
          (init_server, []) of
      ((s, ks), out) \<Rightarrow>
        ks = [AfterLeave ''A'' ''AAAAAA'' 0, AfterJoin ''B'' ''AAAAAA'' 1,
              AfterLeave ''B'' ''AAAAAA'' 0] \<and>
        awaited (ks ! 0) = trackUserLeft ''AAAAAA'' ''A'' 0 \<and>
        awaited (ks ! 2) = trackUserLeft ''AAAAAA'' ''B'' 0)"
  by (simp add: stretch_defs generateRoomId_zero init_server_def Let_def)

text \<open>
  C6. The claim: for every room and day at most one closure event is recorded and
  \<open>roomsCompleted\<close> is raised at most once. \<open>trackRoomClosed\<close> asks the store whether a
  closure of the room is on record since midnight and, when the answer is no, records one
  and raises the counter; the call is suspended between the question and the record. Two
  closures of one room handled one after the other leave one event and the counter at 1.
  Two closures in flight together, both asking before either has recorded, leave two
  events of the room in the day and the counter at 2.
\<close>

theorem room_closure_recorded_twice:
  "length (closedEvents ''AAAAAA'' 0 (db (snd (two_closed_in_turn ''AAAAAA'' world0)))) = 1 \<and>
   dailyCounter (db (snd (two_closed_in_turn ''AAAAAA'' world0))) 0 ''roomsCompleted'' = 1 \<and>
   length (closedEvents ''AAAAAA'' 0 (db (snd (two_closed_interleaved ''AAAAAA'' world0)))) = 2 \<and>
   dailyCounter (db (snd (two_closed_interleaved ''AAAAAA'' world0))) 0 ''roomsCompleted'' = 2"
  by (simp add: two_closed_in_turn_def two_closed_interleaved_def closed_defs world0_def)

text \<open>
  The day of the counter is read again when the counter is raised. A closure recorded a
  millisecond before midnight is counted in the next day; a second closure of the room on
  that next day is recorded, no closure being on record since its midnight, and counted in
  the same day: one closure event of the room in each day, none counted in the first
  day and two in the second.
\<close>

lemma closure_counted_in_next_day:
  "length (closedEvents ''AAAAAA'' 0 (db (snd (two_closed_in_turn ''AAAAAA'' world_at_midnight)))) = 1 \<and>
   length (closedEvents ''AAAAAA'' MS_PER_DAY
             (db (snd (two_closed_in_turn ''AAAAAA'' world_at_midnight)))) = 1 \<and>
   dailyCounter (db (snd (two_closed_in_turn ''AAAAAA'' world_at_midnight))) 0 ''roomsCompleted'' = 0 \<and>
   dailyCounter (db (snd (two_closed_in_turn ''AAAAAA'' world_at_midnight))) MS_PER_DAY
     ''roomsCompleted'' = 2"
  by (simp add: two_closed_in_turn_def closed_defs world_at_midnight_def)

end
